theory Spec2Isabelle
  imports Complex_Main
begin

section \<open>The stream bridge: class ReadableStream\<close>

text \<open>
  The class holds three private fields: the resolvers of the consumers that wait for an
  item (\<open>listeners\<close>), the items not yet consumed (\<open>buffer\<close>) and the \<open>closed\<close> flag.
  A resolver is identified by a number chosen by the caller of \<open>next\<close>; resolving it
  with \<open>{value: c, done: false}\<close> is \<open>Value c\<close>, with \<open>{value: undefined, done: true}\<close>
  is \<open>Done\<close>. Every operation returns the new object together with the resolvers it
  resolved, in order.
\<close>

datatype 'a iter_result = Value 'a | Done

datatype 'a promise = Resolved "'a iter_result" | Pending

record 'a readable_stream =
  listeners :: "nat list"
  buffer :: "'a list"
  closed :: bool

definition new_stream :: "'a readable_stream" where
  "new_stream = \<lparr>listeners = [], buffer = [], closed = False\<rparr>"

definition enqueue ::
  "'a \<Rightarrow> 'a readable_stream \<Rightarrow> 'a readable_stream \<times> (nat \<times> 'a iter_result) list" where
  "enqueue chunk s =
     (if closed s then (s, [])
      else if length (listeners s) > 0
        then (s\<lparr>listeners := tl (listeners s)\<rparr>, [(hd (listeners s), Value chunk)])
        else (s\<lparr>buffer := buffer s @ [chunk]\<rparr>, []))"

definition close ::
  "'a readable_stream \<Rightarrow> 'a readable_stream \<times> (nat \<times> 'a iter_result) list" where
  "close s = (s\<lparr>closed := True, listeners := []\<rparr>, map (\<lambda>l. (l, Done)) (listeners s))"

definition next_item :: "nat \<Rightarrow> 'a readable_stream \<Rightarrow> 'a readable_stream \<times> 'a promise" where
  "next_item l s =
     (if closed s \<and> length (buffer s) = 0 then (s, Resolved Done)
      else if length (buffer s) > 0
        then (s\<lparr>buffer := tl (buffer s)\<rparr>, Resolved (Value (hd (buffer s))))
        else (s\<lparr>listeners := listeners s @ [l]\<rparr>, Pending))"

text \<open>An interleaving of producer and consumer calls is a list of operations.\<close>

datatype 'a stream_op = Enqueue 'a | Close | Next nat

fun apply_op :: "'a stream_op \<Rightarrow> 'a readable_stream \<Rightarrow> 'a readable_stream" where
  "apply_op (Enqueue c) s = fst (enqueue c s)"
| "apply_op Close s = fst (close s)"
| "apply_op (Next l) s = fst (next_item l s)"

definition run_ops :: "'a stream_op list \<Rightarrow> 'a readable_stream \<Rightarrow> 'a readable_stream" where
  "run_ops ops s = foldl (\<lambda>s op. apply_op op s) s ops"

text \<open>Successive \<open>next\<close> calls of consumers \<open>ls\<close>, with what each call returned.\<close>

fun pulls :: "nat list \<Rightarrow> 'a readable_stream \<Rightarrow> 'a promise list" where
  "pulls [] s = []"
| "pulls (l # ls) s = snd (next_item l s) # pulls ls (fst (next_item l s))"

definition bridge_inv :: "'a readable_stream \<Rightarrow> bool" where
  "bridge_inv s = ((buffer s = [] \<or> listeners s = []) \<and> (\<not> closed s \<or> listeners s = []))"

definition sealed :: "'a readable_stream \<Rightarrow> bool" where
  "sealed s = (closed s \<and> listeners s = [])"


section \<open>Errors, effects and the persisted cache\<close>

text \<open>
  A thrown value is an \<open>Error\<close> object, given by its \<open>name\<close> and its \<open>message\<close>, or
  one of the values \<open>null\<close> and \<open>undefined\<close>, which a caller-supplied function can throw
  and a promise can be rejected with. Everything the client does to the outside is recorded, in order, in a trace of effects: the observer callbacks
  of the configuration, the calls of the credentials provider with the usage hint they
  receive, the resolutions of consumers waiting on the stream bridge, and the release calls
  on the browser and SDK objects.
\<close>

datatype js_error = JsError string string | ThrownNull | ThrownUndefined

datatype external_call =
    ProcessorDisconnect | SourceDisconnect | AudioContextClose | TracksStop | ClientDestroy

datatype effect =
    OnTranscript string string
  | OnSpeechStart
  | OnSpeechEnd
  | OnError string
  | OnStateChange bool bool "int option"
  | ProviderInvoked real
  | Delivered nat "int list iter_result"
  | ExternalCall external_call

text \<open>
  \<open>OnTranscript t i\<close> is \<open>onTranscript({transcript: t, interimTranscript: i, resetTranscript})\<close>;
  \<open>OnStateChange l a c\<close> is \<open>onStateChange({isListening: l, isActivelySpeaking: a})\<close> when
  \<open>c = None\<close> and carries \<open>silenceCountdown: r\<close> when \<open>c = Some r\<close>.
\<close>

record credentials =
  accessKeyId :: string
  secretAccessKey :: string
  sessionToken :: string
  expiration :: "real option"
  reservedMinutes :: "real option"

text \<open>
  \<open>expiration\<close> is \<open>expiration.getTime()\<close> in milliseconds, \<open>None\<close> for an invalid date
  (whose time is NaN, so that every comparison with it is false).

  \<open>localStorage\<close> holds strings under two keys. The item under
  \<open>aws_transcribe_credentials\<close> is modelled by what the \<open>try\<close> block of
  \<open>loadStoredCredentials\<close> makes of it: the empty string (falsy), a string on which
  \<open>JSON.parse\<close> or the read of \<open>parsed.expiration\<close> throws the given error, or a string
  from which the block builds the given credentials. The item under
  \<open>aws_transcribe_minutes_used\<close> is only written by \<open>storeMinutesUsed\<close> and is modelled
  by the number its decimal string denotes, over the reals. Where \<open>localStorage\<close> is
  undefined the whole store is \<open>None\<close>.
\<close>

datatype blob = EmptyString | Malformed js_error | Json credentials

record storage =
  credentials_item :: "blob option"
  minutes_used_item :: "real option"

type_synonym local_storage = "storage option"

definition loadStoredCredentials :: "local_storage \<Rightarrow> credentials option \<times> local_storage" where
  "loadStoredCredentials ls =
     (case ls of
        None \<Rightarrow> (None, ls)
      | Some st \<Rightarrow>
          (case credentials_item st of
             None \<Rightarrow> (None, ls)
           | Some EmptyString \<Rightarrow> (None, ls)
           | Some (Json parsed) \<Rightarrow> (Some parsed, ls)
           | Some (Malformed e) \<Rightarrow> (None, Some (st\<lparr>credentials_item := None\<rparr>))))"

text \<open>
  The method of the same name in class \<open>AWSCredentials\<close> differs in the last line of its
  \<open>catch\<close> block: \<open>throw e\<close> where the function above has \<open>return null\<close>.
\<close>

definition AWSCredentials_loadStoredCredentials ::
  "local_storage \<Rightarrow> (js_error + credentials option) \<times> local_storage" where
  "AWSCredentials_loadStoredCredentials ls =
     (case ls of
        None \<Rightarrow> (Inr None, ls)
      | Some st \<Rightarrow>
          (case credentials_item st of
             None \<Rightarrow> (Inr None, ls)
           | Some EmptyString \<Rightarrow> (Inr None, ls)
           | Some (Json parsed) \<Rightarrow> (Inr (Some parsed), ls)
           | Some (Malformed e) \<Rightarrow> (Inl e, Some (st\<lparr>credentials_item := None\<rparr>))))"

definition storeCredentials :: "credentials option \<Rightarrow> local_storage \<Rightarrow> local_storage" where
  "storeCredentials creds ls =
     (case ls of
        None \<Rightarrow> None
      | Some st \<Rightarrow>
          (case creds of
             None \<Rightarrow> Some (st\<lparr>credentials_item := None\<rparr>)
           | Some c \<Rightarrow> Some (st\<lparr>credentials_item := Some (Json c)\<rparr>)))"

definition getMinutesUsed :: "local_storage \<Rightarrow> real" where
  "getMinutesUsed ls =
     (case ls of
        None \<Rightarrow> 0
      | Some st \<Rightarrow> (case minutes_used_item st of None \<Rightarrow> 0 | Some m \<Rightarrow> m))"

definition storeMinutesUsed :: "real \<Rightarrow> local_storage \<Rightarrow> local_storage" where
  "storeMinutesUsed minutes ls =
     (case ls of
        None \<Rightarrow> None
      | Some st \<Rightarrow> Some (st\<lparr>minutes_used_item := Some minutes\<rparr>))"

section \<open>Fetching credentials\<close>

text \<open>
  The provider is caller-supplied: given the usage hint it rejects, resolves to nothing
  (\<open>null\<close> or \<open>undefined\<close>) or resolves to credentials. A configuration without a provider
  has \<open>None\<close>. The fetch returns its result (\<open>Inl\<close> for a thrown error), the store as it
  leaves it, and the hints the provider was invoked with, one per invocation.
\<close>

datatype provider_outcome = Rejects js_error | YieldsNothing | Yields credentials

type_synonym credentials_provider = "real \<Rightarrow> provider_outcome"

definition not_expired :: "real \<Rightarrow> credentials \<Rightarrow> bool" where
  "not_expired now c = (case expiration c of None \<Rightarrow> False | Some t \<Rightarrow> t > now)"

definition fetch_fresh ::
  "credentials_provider \<Rightarrow> local_storage \<Rightarrow> (js_error + credentials) \<times> local_storage \<times> real list" where
  "fetch_fresh provider ls =
     (case provider (getMinutesUsed ls) of
        Rejects e \<Rightarrow> (Inl e, ls, [getMinutesUsed ls])
      | YieldsNothing \<Rightarrow>
          (Inl (JsError ''Error'' ''No credentials available''), ls, [getMinutesUsed ls])
      | Yields c \<Rightarrow> (Inr c, storeCredentials (Some c) ls, [getMinutesUsed ls]))"

text \<open>\<open>_getCredentials\<close> of the client, with the module-level \<open>loadStoredCredentials\<close>.\<close>

definition getCredentials ::
  "credentials_provider option \<Rightarrow> real \<Rightarrow> local_storage
     \<Rightarrow> (js_error + credentials) \<times> local_storage \<times> real list" where
  "getCredentials credentialsProvider now ls =
     (case credentialsProvider of
        None \<Rightarrow> (Inl (JsError ''Error'' ''No credentials provider available''), ls, [])
      | Some provider \<Rightarrow>
          (case loadStoredCredentials ls of
             (Some existingCreds, ls') \<Rightarrow>
               if not_expired now existingCreds then (Inr existingCreds, ls', [])
               else fetch_fresh provider ls'
           | (None, ls') \<Rightarrow> fetch_fresh provider ls'))"

text \<open>\<open>getCredentials\<close> of class \<open>AWSCredentials\<close>, with the method that rethrows.\<close>

definition AWSCredentials_getCredentials ::
  "credentials_provider option \<Rightarrow> real \<Rightarrow> local_storage
     \<Rightarrow> (js_error + credentials) \<times> local_storage \<times> real list" where
  "AWSCredentials_getCredentials credentialsProvider now ls =
     (case credentialsProvider of
        None \<Rightarrow> (Inl (JsError ''Error'' ''No credentials provider available''), ls, [])
      | Some provider \<Rightarrow>
          (case AWSCredentials_loadStoredCredentials ls of
             (Inl e, ls') \<Rightarrow> (Inl e, ls', [])
           | (Inr (Some existingCreds), ls') \<Rightarrow>
               if not_expired now existingCreds then (Inr existingCreds, ls', [])
               else fetch_fresh provider ls'
           | (Inr None, ls') \<Rightarrow> fetch_fresh provider ls'))"

section \<open>Voice activity detection\<close>

text \<open>
  The samples of a frame are the numbers of a \<open>Float32Array\<close> and the threshold is a
  number of the configuration; both are taken finite. JavaScript computes in IEEE double
  precision: each operation returns its exact result rounded to a double. The rounding is
  the parameter \<open>fl\<close> of the model, so that what is proved holds for the rounding of the
  machine. The magnitudes in a \<open>Float32Array\<close> are below \<open>2^128\<close>, so no operation of
  \<open>_detectVoiceActivity\<close> overflows. The one operation that leaves the finite numbers is
  the division by the length of the frame: \<open>0 / 0\<close> is NaN, the square root of NaN is NaN,
  and NaN is greater than nothing.
\<close>

type_synonym rounding = "real \<Rightarrow> real"

datatype jsnum = Num real | PosInfinity | NegInfinity | NaN

definition js_div :: "rounding \<Rightarrow> real \<Rightarrow> real \<Rightarrow> jsnum" where
  "js_div fl a b =
     (if b \<noteq> 0 then Num (fl (a / b))
      else if a = 0 then NaN
      else if a > 0 then PosInfinity else NegInfinity)"

fun js_sqrt :: "rounding \<Rightarrow> jsnum \<Rightarrow> jsnum" where
  "js_sqrt fl (Num x) = (if x < 0 then NaN else Num (fl (sqrt x)))"
| "js_sqrt fl PosInfinity = PosInfinity"
| "js_sqrt fl NegInfinity = NaN"
| "js_sqrt fl NaN = NaN"

fun js_gt :: "jsnum \<Rightarrow> real \<Rightarrow> bool" where
  "js_gt (Num x) t = (x > t)"
| "js_gt PosInfinity t = True"
| "js_gt NegInfinity t = False"
| "js_gt NaN t = False"

text \<open>\<open>inputData.reduce((acc, val) => acc + val * val, 0)\<close>, from the accumulator \<open>acc\<close>.\<close>

definition reduce_squares :: "rounding \<Rightarrow> real \<Rightarrow> real list \<Rightarrow> real" where
  "reduce_squares fl acc inputData = foldl (\<lambda>acc val. fl (acc + fl (val * val))) acc inputData"

definition frame_rms :: "rounding \<Rightarrow> real list \<Rightarrow> jsnum" where
  "frame_rms fl inputData =
     js_sqrt fl (js_div fl (reduce_squares fl 0 inputData) (real (length inputData)))"

definition detectVoiceActivity :: "rounding \<Rightarrow> real \<Rightarrow> real list \<Rightarrow> bool" where
  "detectVoiceActivity fl vadThreshold inputData = js_gt (frame_rms fl inputData) vadThreshold"

text \<open>
  The root-mean-square of the specification, which defines it as 0 on the empty frame,
  and the classifier the specification states with it.
\<close>

definition spec_rms :: "real list \<Rightarrow> real" where
  "spec_rms f = (if f = [] then 0 else sqrt ((\<Sum>x\<leftarrow>f. x * x) / real (length f)))"

definition spec_classify :: "real list \<Rightarrow> real \<Rightarrow> bool" where
  "spec_classify f t = (spec_rms f > t)"


section \<open>Configuration defaults\<close>

text \<open>
  The options object of the constructor: an option that is absent is \<open>None\<close>. The
  observer callbacks and the session-id generator are not part of the record: a callback
  is modelled by the effect its invocation leaves in the trace. The constructor fills
  each entry of the configuration as \<open>options.x || default\<close>, which takes the default
  whenever the supplied value is falsy.
\<close>

record options =
  opt_region :: "string option"
  opt_languageCode :: "string option"
  opt_sampleRate :: "real option"
  opt_vadThreshold :: "real option"
  opt_silenceDuration :: "real option"
  opt_maxSilenceDuration :: "real option"
  opt_bufferSize :: "real option"
  opt_credentialsProvider :: "credentials_provider option"

record config =
  region :: string
  languageCode :: string
  sampleRate :: real
  vadThreshold :: real
  silenceDuration :: real
  maxSilenceDuration :: real
  bufferSize :: real
  credentialsProvider :: "credentials_provider option"

definition VAD_THRESHOLD :: real where "VAD_THRESHOLD = 2 / 100"

definition SILENCE_DURATION :: real where "SILENCE_DURATION = 1000"

definition MAX_SILENCE_DURATION :: real where "MAX_SILENCE_DURATION = 60000"

definition BUFFER_SIZE :: real where "BUFFER_SIZE = 4096"

definition number_or :: "real option \<Rightarrow> real \<Rightarrow> real" where
  "number_or supplied dflt =
     (case supplied of None \<Rightarrow> dflt | Some v \<Rightarrow> if v = 0 then dflt else v)"

definition string_or :: "string option \<Rightarrow> string \<Rightarrow> string" where
  "string_or supplied dflt =
     (case supplied of None \<Rightarrow> dflt | Some v \<Rightarrow> if v = [] then dflt else v)"

definition make_config :: "options \<Rightarrow> config" where
  "make_config opts =
     \<lparr>region = string_or (opt_region opts) ''us-east-1'',
      languageCode = string_or (opt_languageCode opts) ''en-US'',
      sampleRate = number_or (opt_sampleRate opts) 44100,
      vadThreshold = number_or (opt_vadThreshold opts) VAD_THRESHOLD,
      silenceDuration = number_or (opt_silenceDuration opts) SILENCE_DURATION,
      maxSilenceDuration = number_or (opt_maxSilenceDuration opts) MAX_SILENCE_DURATION,
      bufferSize = number_or (opt_bufferSize opts) BUFFER_SIZE,
      credentialsProvider = opt_credentialsProvider opts\<rparr>"

section \<open>Consuming the result stream\<close>

text \<open>
  A result event as the loop of \<open>_processTranscriptionResults\<close> reads it: every level
  that the loop tests for presence is an option. The \<open>Alternatives\<close> array is a list, of
  which the loop reads the first element if there is one; a result without the array is
  outside the model. A missing \<open>IsPartial\<close> is falsy and makes the result final.
\<close>

datatype alternative = Alternative (Transcript: "string option")

datatype transcript_result =
  Result (IsPartial: "bool option") (Alternatives: "alternative list")

datatype transcript_obj = TranscriptObj (Results: "transcript_result list option")

datatype transcript_event = TranscriptEventObj (EventTranscript: "transcript_obj option")

datatype stream_event = StreamEvent (TranscriptEvent: "transcript_event option")

text \<open>\<open>result.Alternatives[0]?.Transcript || ''\<close>\<close>

definition first_transcript :: "transcript_result \<Rightarrow> string" where
  "first_transcript r =
     (case Alternatives r of
        [] \<Rightarrow> []
      | a # _ \<Rightarrow> (case Transcript a of None \<Rightarrow> [] | Some s \<Rightarrow> s))"

text \<open>
  The body of the loop, on the field \<open>this.transcript\<close>: the new value of the field and
  the callbacks made. No other method of the client reads or writes that field, so the
  loop is modelled on the field alone.
\<close>

definition handle_event :: "string \<Rightarrow> stream_event \<Rightarrow> string \<times> effect list" where
  "handle_event transcript event =
     (case TranscriptEvent event of
        None \<Rightarrow> (transcript, [])
      | Some te \<Rightarrow>
          (case EventTranscript te of
             None \<Rightarrow> (transcript, [])
           | Some tr \<Rightarrow>
               (case Results tr of
                  None \<Rightarrow> (transcript, [])
                | Some results \<Rightarrow>
                    if length results > 0 then
                      (if IsPartial (hd results) = Some True
                       then (transcript, [OnTranscript transcript (first_transcript (hd results))])
                       else (transcript @ first_transcript (hd results) @ '' '',
                             [OnTranscript (transcript @ first_transcript (hd results) @ '' '') []]))
                    else (transcript, []))))"

text \<open>
  What the consuming task meets: the stream yields an event, the iteration throws, or the
  observer invokes the \<open>resetTranscript\<close> closure it was handed by an earlier callback
  (during that callback or at any later time), which empties the field.
\<close>

datatype consumer_step = Yielded stream_event | Threw js_error | ResetTranscript

text \<open>
  The \<open>catch\<close> block of the loop. On \<open>null\<close> or \<open>undefined\<close> the read of \<open>error.name\<close>
  throws inside the block, so no callback is made.
\<close>

definition report_failure :: "js_error \<Rightarrow> effect list" where
  "report_failure e =
     (case e of
        JsError name message \<Rightarrow>
          if name \<noteq> ''AbortError''
          then [OnError (''Transcription error: '' @
                         (if message = [] then ''Unknown error'' else message))]
          else []
      | ThrownNull \<Rightarrow> []
      | ThrownUndefined \<Rightarrow> [])"

fun processTranscriptionResults :: "string \<Rightarrow> consumer_step list \<Rightarrow> string \<times> effect list" where
  "processTranscriptionResults transcript [] = (transcript, [])"
| "processTranscriptionResults transcript (Yielded event # rest) =
     (fst (processTranscriptionResults (fst (handle_event transcript event)) rest),
      snd (handle_event transcript event)
        @ snd (processTranscriptionResults (fst (handle_event transcript event)) rest))"
| "processTranscriptionResults transcript (ResetTranscript # rest) =
     processTranscriptionResults [] rest"
| "processTranscriptionResults transcript (Threw e # rest) =
     (if ResetTranscript \<in> set rest then [] else transcript, report_failure e)"

text \<open>
  The result events of the specification, shaped \<open>{isPartial, text}\<close>, and what the
  specification says the observer receives for a sequence of them: the committed transcript
  after the sequence, and the pairs (committed, partial) reported.
\<close>

definition spec_event :: "bool \<times> string \<Rightarrow> stream_event" where
  "spec_event e =
     StreamEvent (Some (TranscriptEventObj (Some (TranscriptObj (Some
       [Result (Some (fst e)) [Alternative (Some (snd e))]])))))"

fun spec_committed :: "string \<Rightarrow> (bool \<times> string) list \<Rightarrow> string" where
  "spec_committed committed [] = committed"
| "spec_committed committed ((isPartial, text) # es) =
     (if isPartial then spec_committed committed es
      else spec_committed (committed @ text @ '' '') es)"

fun spec_reports :: "string \<Rightarrow> (bool \<times> string) list \<Rightarrow> (string \<times> string) list" where
  "spec_reports committed [] = []"
| "spec_reports committed ((isPartial, text) # es) =
     (if isPartial then (committed, text) # spec_reports committed es
      else (committed @ text @ '' '', []) # spec_reports (committed @ text @ '' '') es)"


section \<open>The session controller: class AWSTranscribeClient\<close>

text \<open>
  The fields of the class, in a record. A browser or SDK object is an opaque handle, a
  nullable field an option. Timer fields hold the identifier that \<open>setTimeout\<close> or
  \<open>setInterval\<close> returned; identifiers are positive, so the truthiness test the code
  applies to such a field is a test against \<open>null\<close>. The field \<open>transcript\<close> is the
  subject of the previous section. The sources hold two copies of the class; the field
  \<open>AudioContextClass\<close> belongs to the second one and is modelled by whether it is defined.

  The record is extended by what the methods reach outside the object: the timers pending
  in the browser (identifier, callback and delay), the last identifier handed out,
  \<open>localStorage\<close>, and the trace of effects. \<open>Date.now()\<close> is an argument of every
  operation that reads the clock.
\<close>

type_synonym handle = nat

datatype callback = HandleSilence | MaxSilenceReached | CountdownTick real

record client =
  config :: config
  isListening :: bool
  isActivelySpeaking :: bool
  silenceCountdown :: "int option"
  browserSupported :: bool
  audioContext :: "handle option"
  maxSilenceTimeout :: "nat option"
  countdownInterval :: "nat option"
  sourceNode :: "handle option"
  processorNode :: "handle option"
  transcribeClient :: "handle option"
  stream :: "handle option"
  startTime :: "real option"
  silenceTimeout :: "nat option"
  activeStreaming :: bool
  customStream :: "int list readable_stream option"
  transcribeStream :: "handle option"
  audioContextClass :: bool

record world = client +
  lastTimerId :: nat
  timers :: "(nat \<times> callback \<times> real) list"
  localStorage :: local_storage
  trace :: "effect list"

subsection \<open>Construction\<close>

record browser =
  hasWindow :: bool
  hasGetUserMedia :: bool
  hasAudioContext :: bool

definition checkBrowserCompatibility :: "browser \<Rightarrow> bool" where
  "checkBrowserCompatibility b =
     (if \<not> hasWindow b then False
      else if \<not> hasGetUserMedia b then False
      else if \<not> hasAudioContext b then False
      else True)"

definition new_client :: "options \<Rightarrow> browser \<Rightarrow> local_storage \<Rightarrow> world" where
  "new_client opts b ls =
     \<lparr>config = make_config opts,
      isListening = False,
      isActivelySpeaking = False,
      silenceCountdown = None,
      browserSupported = checkBrowserCompatibility b,
      audioContext = None,
      maxSilenceTimeout = None,
      countdownInterval = None,
      sourceNode = None,
      processorNode = None,
      transcribeClient = None,
      stream = None,
      startTime = None,
      silenceTimeout = None,
      activeStreaming = False,
      customStream = None,
      transcribeStream = None,
      audioContextClass = checkBrowserCompatibility b,
      lastTimerId = 0,
      timers = [],
      localStorage = ls,
      trace = []\<rparr>"

subsection \<open>Timers of the browser\<close>

text \<open>
  \<open>setTimeout\<close> and \<open>setInterval\<close> register a callback and return a fresh positive
  identifier, which is \<open>lastTimerId\<close> of the world they return; \<open>clearTimeout\<close> and
  \<open>clearInterval\<close> forget the timer of an identifier, if it is still pending.
\<close>

definition setTimeout :: "callback \<Rightarrow> real \<Rightarrow> world \<Rightarrow> world" where
  "setTimeout cb delay w =
     w\<lparr>lastTimerId := Suc (lastTimerId w),
       timers := timers w @ [(Suc (lastTimerId w), cb, delay)]\<rparr>"

definition setInterval :: "callback \<Rightarrow> real \<Rightarrow> world \<Rightarrow> world" where
  "setInterval cb delay w = setTimeout cb delay w"

definition clearTimeout :: "nat \<Rightarrow> world \<Rightarrow> world" where
  "clearTimeout tid w = w\<lparr>timers := filter (\<lambda>t. fst t \<noteq> tid) (timers w)\<rparr>"

definition clearInterval :: "nat \<Rightarrow> world \<Rightarrow> world" where
  "clearInterval tid w = clearTimeout tid w"

subsection \<open>Silence handling\<close>

definition handleSilence :: "real \<Rightarrow> world \<Rightarrow> world" where
  "handleSilence now w =
     (if \<not> activeStreaming w then w
      else
        let w1 = w\<lparr>activeStreaming := False, isActivelySpeaking := False,
                   trace := trace w @ [OnSpeechEnd, OnStateChange (isListening w) False None]\<rparr>
        in if maxSilenceTimeout w1 = None then
             let w2 = setTimeout MaxSilenceReached (maxSilenceDuration (config w1)) w1;
                 w3 = w2\<lparr>maxSilenceTimeout := Some (lastTimerId w2)\<rparr>;
                 w4 = setInterval (CountdownTick now) 1000 w3
             in w4\<lparr>countdownInterval := Some (lastTimerId w4)\<rparr>
           else w1)"

text \<open>The callback of the countdown interval; \<open>started\<close> is the clock captured when it was armed.\<close>

definition countdownTick :: "real \<Rightarrow> real \<Rightarrow> world \<Rightarrow> world" where
  "countdownTick started now w =
     (let elapsed = now - started;
          remaining = \<lceil>(maxSilenceDuration (config w) - elapsed) / 1000\<rceil>;
          w1 = w\<lparr>silenceCountdown := Some remaining,
                 trace := trace w @ [OnStateChange (isListening w) False (Some remaining)]\<rparr>
      in if elapsed \<ge> maxSilenceDuration (config w) then
           (case countdownInterval w1 of
              Some c \<Rightarrow> (clearInterval c w1)\<lparr>countdownInterval := None\<rparr>
            | None \<Rightarrow> w1)\<lparr>silenceCountdown := None\<rparr>
         else w1)"

definition resetSilenceTimeout :: "world \<Rightarrow> world" where
  "resetSilenceTimeout w =
     (let w1 = (case silenceTimeout w of Some t \<Rightarrow> clearTimeout t w | None \<Rightarrow> w);
          w2 = setTimeout HandleSilence (silenceDuration (config w1)) w1;
          w3 = w2\<lparr>silenceTimeout := Some (lastTimerId w2)\<rparr>;
          w4 = (case maxSilenceTimeout w3 of
                  Some m \<Rightarrow> (clearTimeout m w3)\<lparr>maxSilenceTimeout := None\<rparr>
                | None \<Rightarrow> w3)
      in (case countdownInterval w4 of
            Some c \<Rightarrow> (clearInterval c w4)\<lparr>countdownInterval := None, silenceCountdown := None\<rparr>
          | None \<Rightarrow> w4))"

subsection \<open>The audio callback\<close>

text \<open>
  A chunk put on the bridge is the 16-bit samples of the frame; the byte view of the
  array that the code wraps around them is not modelled.
\<close>

definition to_pcm :: "real list \<Rightarrow> int list" where
  "to_pcm inputData = map (\<lambda>x. \<lfloor>max (- 1) (min 1 x) * 32767\<rfloor>) inputData"

definition delivered :: "(nat \<times> int list iter_result) list \<Rightarrow> effect list" where
  "delivered rs = map (\<lambda>r. Delivered (fst r) (snd r)) rs"

definition processAudioData :: "real list \<Rightarrow> world \<Rightarrow> world" where
  "processAudioData inputData w =
     (case customStream w of
        None \<Rightarrow> w
      | Some s \<Rightarrow>
          w\<lparr>customStream := Some (fst (enqueue (to_pcm inputData) s)),
            trace := trace w @ delivered (snd (enqueue (to_pcm inputData) s))\<rparr>)"

definition onaudioprocess :: "rounding \<Rightarrow> real list \<Rightarrow> world \<Rightarrow> world" where
  "onaudioprocess fl inputData w =
     (let hasVoice = detectVoiceActivity fl (vadThreshold (config w)) inputData;
          w1 = (if hasVoice \<and> \<not> activeStreaming w then
                  (let wa = resetSilenceTimeout
                              (w\<lparr>activeStreaming := True, isActivelySpeaking := True\<rparr>)
                   in wa\<lparr>trace := trace wa @ [OnSpeechStart, OnStateChange (isListening wa) True None]\<rparr>)
                else if hasVoice then resetSilenceTimeout w
                else w)
      in if customStream w1 \<noteq> None then processAudioData inputData w1 else w1)"

subsection \<open>stop()\<close>

definition persist_usage :: "real \<Rightarrow> world \<Rightarrow> world" where
  "persist_usage now w =
     (case startTime w of
        None \<Rightarrow> w
      | Some started \<Rightarrow>
          if started = 0 then w
          else w\<lparr>localStorage :=
                   storeMinutesUsed (getMinutesUsed (localStorage w) + (now - started) / (1000 * 60))
                     (localStorage w)\<rparr>)"

definition close_customStream :: "world \<Rightarrow> world" where
  "close_customStream w =
     (case customStream w of
        None \<Rightarrow> w
      | Some s \<Rightarrow> w\<lparr>customStream := None, trace := trace w @ delivered (snd (close s))\<rparr>)"

definition release_handles :: "world \<Rightarrow> world" where
  "release_handles w =
     (let w1 = (case processorNode w of None \<Rightarrow> w
                | Some h \<Rightarrow> w\<lparr>processorNode := None, trace := trace w @ [ExternalCall ProcessorDisconnect]\<rparr>);
          w2 = (case sourceNode w1 of None \<Rightarrow> w1
                | Some h \<Rightarrow> w1\<lparr>sourceNode := None, trace := trace w1 @ [ExternalCall SourceDisconnect]\<rparr>);
          w3 = (case audioContext w2 of None \<Rightarrow> w2
                | Some h \<Rightarrow> w2\<lparr>audioContext := None, trace := trace w2 @ [ExternalCall AudioContextClose]\<rparr>);
          w4 = (case stream w3 of None \<Rightarrow> w3
                | Some h \<Rightarrow> w3\<lparr>stream := None, trace := trace w3 @ [ExternalCall TracksStop]\<rparr>)
      in (case transcribeClient w4 of None \<Rightarrow> w4
          | Some h \<Rightarrow> w4\<lparr>transcribeClient := None, trace := trace w4 @ [ExternalCall ClientDestroy]\<rparr>))"

definition clear_timers :: "world \<Rightarrow> world" where
  "clear_timers w =
     (let w1 = (case silenceTimeout w of None \<Rightarrow> w
                | Some t \<Rightarrow> (clearTimeout t w)\<lparr>silenceTimeout := None\<rparr>);
          w2 = (case maxSilenceTimeout w1 of None \<Rightarrow> w1
                | Some t \<Rightarrow> (clearTimeout t w1)\<lparr>maxSilenceTimeout := None\<rparr>)
      in (case countdownInterval w2 of None \<Rightarrow> w2
          | Some t \<Rightarrow> (clearInterval t w2)\<lparr>countdownInterval := None\<rparr>))"

text \<open>
  Each release call sits in its own \<open>try\<close> whose \<open>catch\<close> only logs, so a release that
  throws changes nothing of what follows. \<open>stop()\<close> always returns \<open>true\<close>.
\<close>

definition stop :: "real \<Rightarrow> world \<Rightarrow> world" where
  "stop now w =
     (let w1 = clear_timers (release_handles (close_customStream (persist_usage now w)))
      in w1\<lparr>isListening := False, isActivelySpeaking := False, silenceCountdown := None,
            activeStreaming := False, trace := trace w1 @ [OnStateChange False False None]\<rparr>)"

subsection \<open>start()\<close>

text \<open>
  What the browser, the provider and the transcription service answer during one call of
  \<open>start()\<close>, and the clock read by the credential fetch, at the end of a successful start
  and by the \<open>stop()\<close> of the \<open>catch\<close> block. The call is modelled without other callbacks
  running between its steps; the constructors of the SDK client and command and the
  session-id generator are taken not to throw.
\<close>

record start_env =
  getUserMedia :: "js_error + handle"
  newAudioContext :: "js_error + handle"
  createMediaStreamSource :: "js_error + handle"
  createScriptProcessor :: "js_error + handle"
  connectNodes :: "js_error option"
  credentialsClock :: real
  newTranscribeClient :: handle
  send :: "js_error + handle"
  startedClock :: real
  failedClock :: real

type_synonym credential_fetch =
  "credentials_provider option \<Rightarrow> real \<Rightarrow> local_storage
     \<Rightarrow> (js_error + credentials) \<times> local_storage \<times> real list"

text \<open>
  The \<open>try\<close> block: the value thrown, if any, and the world at that point. The two copies
  of the class have the same block up to the credential fetch they call, which is the
  parameter \<open>fetch\<close>.
\<close>

definition start_try ::
  "credential_fetch \<Rightarrow> start_env \<Rightarrow> world \<Rightarrow> js_error option \<times> world" where
  "start_try fetch env w =
     (case getUserMedia env of Inl e \<Rightarrow> (Some e, w) | Inr media \<Rightarrow>
      let w1 = w\<lparr>stream := Some media\<rparr> in
      case newAudioContext env of Inl e \<Rightarrow> (Some e, w1) | Inr ctx \<Rightarrow>
      let w2 = w1\<lparr>audioContext := Some ctx\<rparr> in
      case createMediaStreamSource env of Inl e \<Rightarrow> (Some e, w2) | Inr src \<Rightarrow>
      let w3 = w2\<lparr>sourceNode := Some src\<rparr> in
      case createScriptProcessor env of Inl e \<Rightarrow> (Some e, w3) | Inr proc \<Rightarrow>
      let w4 = w3\<lparr>processorNode := Some proc\<rparr> in
      case connectNodes env of Some e \<Rightarrow> (Some e, w4) | None \<Rightarrow>
      let fetched = fetch (credentialsProvider (config w4)) (credentialsClock env)
                      (localStorage w4);
          w5 = w4\<lparr>localStorage := fst (snd fetched),
                   trace := trace w4 @ map ProviderInvoked (snd (snd fetched))\<rparr> in
      case fst fetched of Inl e \<Rightarrow> (Some e, w5) | Inr credentials \<Rightarrow>
      let w6 = w5\<lparr>transcribeClient := Some (newTranscribeClient env),
                   customStream := Some new_stream\<rparr> in
      case send env of Inl e \<Rightarrow> (Some e, w6) | Inr response \<Rightarrow>
      let w7 = w6\<lparr>transcribeStream := Some response,
                   startTime := Some (startedClock env), isListening := True\<rparr>
      in (None, w7\<lparr>trace := trace w7 @ [OnStateChange True False None]\<rparr>))"

text \<open>
  The roll-back both \<open>catch\<close> blocks end with: the error callback with the given message,
  the reset of \<open>isListening\<close> and \<open>startTime\<close>, and \<open>this.stop()\<close>.
\<close>

definition report_and_stop :: "start_env \<Rightarrow> string \<Rightarrow> world \<Rightarrow> world" where
  "report_and_stop env message w =
     stop (failedClock env)
       (w\<lparr>trace := trace w @ [OnError message], isListening := False, startTime := None\<rparr>)"

text \<open>
  The \<open>catch\<close> block of \<open>src/aws-transcribe-client.ts\<close> reads \<open>error.message\<close> first. On
  \<open>null\<close> and \<open>undefined\<close> that read throws a \<open>TypeError\<close> (worded as V8 words it), which
  leaves the block before the roll-back and is what the caller receives.
\<close>

definition reading_message_of :: "string \<Rightarrow> js_error" where
  "reading_message_of v =
     JsError ''TypeError'' (''Cannot read properties of '' @ v @ '' (reading 'message')'')"

definition start_catch :: "start_env \<Rightarrow> js_error \<Rightarrow> world \<Rightarrow> (js_error + bool) \<times> world" where
  "start_catch env e w =
     (case e of
        JsError name message \<Rightarrow>
          (Inl e,
           report_and_stop env (if message = [] then ''Failed to start transcription'' else message) w)
      | ThrownNull \<Rightarrow> (Inl (reading_message_of ''null''), w)
      | ThrownUndefined \<Rightarrow> (Inl (reading_message_of ''undefined''), w))"

definition start :: "start_env \<Rightarrow> world \<Rightarrow> (js_error + bool) \<times> world" where
  "start env w =
     (if isListening w then (Inr True, w)
      else if \<not> browserSupported w then
        (Inr False,
         w\<lparr>trace := trace w @
              [OnError ''Your browser doesn't support microphone access or Web Audio API.'']\<rparr>)
      else (case start_try getCredentials env w of
              (None, w') \<Rightarrow> (Inr True, w')
            | (Some e, w') \<Rightarrow> start_catch env e w'))"

text \<open>
  The second copy of the class fetches through \<open>AWSCredentials.getCredentials\<close>, tests
  its field \<open>AudioContextClass\<close> before the \<open>try\<close> block, and takes the message of its
  \<open>catch\<close> block as \<open>error instanceof Error ? error.message : String(error)\<close>.
\<close>

definition start_catch_v2 :: "start_env \<Rightarrow> js_error \<Rightarrow> world \<Rightarrow> (js_error + bool) \<times> world" where
  "start_catch_v2 env e w =
     (Inl e,
      report_and_stop env
        (case e of
           JsError name message \<Rightarrow>
             if message = [] then ''Failed to start transcription'' else message
         | ThrownNull \<Rightarrow> ''null''
         | ThrownUndefined \<Rightarrow> ''undefined'') w)"

definition start_v2 :: "start_env \<Rightarrow> world \<Rightarrow> (js_error + bool) \<times> world" where
  "start_v2 env w =
     (if isListening w then (Inr True, w)
      else if \<not> browserSupported w then
        (Inr False,
         w\<lparr>trace := trace w @
              [OnError ''Your browser doesn't support microphone access or Web Audio API.'']\<rparr>)
      else if \<not> audioContextClass w then
        (Inr False,
         w\<lparr>trace := trace w @ [OnError ''Your browser doesn't support AudioContext.'']\<rparr>)
      else (case start_try AWSCredentials_getCredentials env w of
              (None, w') \<Rightarrow> (Inr True, w')
            | (Some e, w') \<Rightarrow> start_catch_v2 env e w'))"

subsection \<open>Events of a session\<close>

text \<open>
  A pending timer fires: the browser forgets a one-shot timer and runs its callback; the
  countdown interval stays registered. An identifier that is not pending fires nothing.
\<close>

definition fire :: "nat \<Rightarrow> real \<Rightarrow> world \<Rightarrow> world" where
  "fire tid now w =
     (case map_of (timers w) tid of
        None \<Rightarrow> w
      | Some (cb, delay) \<Rightarrow>
          (case cb of
             HandleSilence \<Rightarrow> handleSilence now (clearTimeout tid w)
           | MaxSilenceReached \<Rightarrow> stop now (clearTimeout tid w)
           | CountdownTick started \<Rightarrow> countdownTick started now w))"

datatype session_event =
    AudioFrame "real list"
  | TimerFires nat real
  | StopCalled real
  | StartCalled start_env

fun session_step :: "rounding \<Rightarrow> session_event \<Rightarrow> world \<Rightarrow> world" where
  "session_step fl (AudioFrame inputData) w = onaudioprocess fl inputData w"
| "session_step fl (TimerFires tid now) w = fire tid now w"
| "session_step fl (StopCalled now) w = stop now w"
| "session_step fl (StartCalled env) w = snd (start env w)"

definition run_session :: "rounding \<Rightarrow> session_event list \<Rightarrow> world \<Rightarrow> world" where
  "run_session fl evs w = foldl (\<lambda>w ev. session_step fl ev w) w evs"

definition is_speech :: "rounding \<Rightarrow> world \<Rightarrow> session_event \<Rightarrow> bool" where
  "is_speech fl w ev =
     (case ev of AudioFrame f \<Rightarrow> detectVoiceActivity fl (vadThreshold (config w)) f | _ \<Rightarrow> False)"

text \<open>
  The events that leave a pending short timer alone: a frame that is not speech, the
  firing of a timer other than the one \<open>silenceTimeout\<close> holds, and a \<open>start()\<close> that does
  not raise. \<open>stop()\<close> is not among them, nor is a \<open>start()\<close> that raises, since its
  \<open>catch\<close> block runs \<open>stop()\<close>. A window is undisturbed when each of its events is
  such an event in the state it meets.
\<close>

definition leaves_short_timer :: "rounding \<Rightarrow> world \<Rightarrow> session_event \<Rightarrow> bool" where
  "leaves_short_timer fl w ev =
     (case ev of
        AudioFrame g \<Rightarrow> \<not> detectVoiceActivity fl (vadThreshold (config w)) g
      | TimerFires tid now \<Rightarrow> silenceTimeout w \<noteq> Some tid
      | StopCalled now \<Rightarrow> False
      | StartCalled env \<Rightarrow> \<not> isl (fst (start env w)))"

fun undisturbed :: "rounding \<Rightarrow> session_event list \<Rightarrow> world \<Rightarrow> bool" where
  "undisturbed fl [] w = True"
| "undisturbed fl (ev # evs) w =
     (leaves_short_timer fl w ev \<and> undisturbed fl evs (session_step fl ev w))"

definition speech_ends :: "effect list \<Rightarrow> nat" where
  "speech_ends tr = length (filter (\<lambda>e. e = OnSpeechEnd) tr)"

definition state_updates :: "effect list \<Rightarrow> nat" where
  "state_updates tr = length (filter (\<lambda>e. case e of OnStateChange l a c \<Rightarrow> True | _ \<Rightarrow> False) tr)"

section \<open>Vocabulary of the statements and concrete inputs\<close>

text \<open>
  The cached credential that is usable at time \<open>now\<close>: the stored item builds
  credentials whose expiration is strictly later than \<open>now\<close>.
\<close>

definition cached :: "real \<Rightarrow> local_storage \<Rightarrow> credentials option" where
  "cached now ls =
     (case ls of
        None \<Rightarrow> None
      | Some st \<Rightarrow>
          (case credentials_item st of
             Some (Json c) \<Rightarrow> if not_expired now c then Some c else None
           | _ \<Rightarrow> None))"

text \<open>
  How a numeric option reaches the configuration: a supplied 0 and an absent option give
  the default, any other supplied number is used, and nothing else replaces the default.
\<close>

definition defaulted :: "real option \<Rightarrow> real \<Rightarrow> real \<Rightarrow> bool" where
  "defaulted supplied dflt used =
     ((supplied = Some 0 \<longrightarrow> used = dflt)
      \<and> (supplied = None \<longrightarrow> used = dflt)
      \<and> (\<forall>v. supplied = Some v \<and> v \<noteq> 0 \<longrightarrow> used = v)
      \<and> (used \<noteq> dflt \<longrightarrow> (\<exists>v. supplied = Some v \<and> v \<noteq> 0)))"

definition credentials_A :: credentials where
  "credentials_A =
     \<lparr>accessKeyId = ''AKIA-A'', secretAccessKey = ''secret-A'', sessionToken = ''token-A'',
      expiration = Some 300000, reservedMinutes = Some 15\<rparr>"

definition credentials_B :: credentials where
  "credentials_B =
     \<lparr>accessKeyId = ''AKIA-B'', secretAccessKey = ''secret-B'', sessionToken = ''token-B'',
      expiration = Some 900000, reservedMinutes = None\<rparr>"

definition storage_A :: local_storage where
  "storage_A = Some \<lparr>credentials_item = Some (Json credentials_A), minutes_used_item = Some 3\<rparr>"

definition storage_corrupt :: local_storage where
  "storage_corrupt =
     Some \<lparr>credentials_item = Some (Malformed (JsError ''SyntaxError'' ''Unexpected token'')),
           minutes_used_item = None\<rparr>"

text \<open>
  Vocabulary for the controller: what \<open>stop()\<close> leaves in the store and emits while
  releasing, a timer table without the timers of some handles, the bound that the
  identifiers handed out respect, and the state that \<open>stop()\<close> establishes.
\<close>

definition usage_after :: "real \<Rightarrow> world \<Rightarrow> local_storage" where
  "usage_after now w = localStorage (persist_usage now w)"

definition stop_effects :: "world \<Rightarrow> effect list" where
  "stop_effects w =
     (case customStream w of None \<Rightarrow> [] | Some s \<Rightarrow> delivered (snd (close s)))
     @ (case processorNode w of None \<Rightarrow> [] | Some h \<Rightarrow> [ExternalCall ProcessorDisconnect])
     @ (case sourceNode w of None \<Rightarrow> [] | Some h \<Rightarrow> [ExternalCall SourceDisconnect])
     @ (case audioContext w of None \<Rightarrow> [] | Some h \<Rightarrow> [ExternalCall AudioContextClose])
     @ (case stream w of None \<Rightarrow> [] | Some h \<Rightarrow> [ExternalCall TracksStop])
     @ (case transcribeClient w of None \<Rightarrow> [] | Some h \<Rightarrow> [ExternalCall ClientDestroy])"

definition without_timers :: "nat option list \<Rightarrow> (nat \<times> callback \<times> real) list \<Rightarrow> (nat \<times> callback \<times> real) list" where
  "without_timers hs ts = filter (\<lambda>t. Some (fst t) \<notin> set hs) ts"

definition handle_bounded :: "nat \<Rightarrow> nat option \<Rightarrow> bool" where
  "handle_bounded n h = (case h of None \<Rightarrow> True | Some i \<Rightarrow> i \<le> n)"

definition ids_bounded :: "world \<Rightarrow> bool" where
  "ids_bounded w =
     (list_all (\<lambda>t. fst t \<le> lastTimerId w) (timers w)
      \<and> handle_bounded (lastTimerId w) (silenceTimeout w)
      \<and> handle_bounded (lastTimerId w) (maxSilenceTimeout w)
      \<and> handle_bounded (lastTimerId w) (countdownInterval w))"

definition torn_down :: "world \<Rightarrow> bool" where
  "torn_down w =
     (\<not> isListening w \<and> \<not> isActivelySpeaking w \<and> \<not> activeStreaming w
      \<and> silenceCountdown w = None \<and> customStream w = None \<and> processorNode w = None
      \<and> sourceNode w = None \<and> audioContext w = None \<and> stream w = None
      \<and> transcribeClient w = None \<and> silenceTimeout w = None \<and> maxSilenceTimeout w = None
      \<and> countdownInterval w = None)"

definition audio_graph_ok :: "start_env \<Rightarrow> bool" where
  "audio_graph_ok env =
     (\<not> isl (getUserMedia env) \<and> \<not> isl (newAudioContext env)
      \<and> \<not> isl (createMediaStreamSource env) \<and> \<not> isl (createScriptProcessor env)
      \<and> connectNodes env = None)"

text \<open>
  Vocabulary for the timers: every pending timer is the one some timer field holds, and
  the countdown is only held together with the long timer.
\<close>

definition timers_tracked :: "world \<Rightarrow> bool" where
  "timers_tracked w =
     (list_all (\<lambda>t. Some (fst t) \<in> {silenceTimeout w, maxSilenceTimeout w, countdownInterval w})
        (timers w)
      \<and> (maxSilenceTimeout w \<noteq> None \<or> countdownInterval w = None))"

text \<open>
  The short timer \<open>tid\<close> is pending: the client streams actively, \<open>silenceTimeout\<close>
  holds \<open>tid\<close>, no long timer is armed, and the timer table holds the one entry that
  calls \<open>_handleSilence\<close> after \<open>silenceDuration\<close>.
\<close>

definition short_timer_pending :: "nat \<Rightarrow> world \<Rightarrow> bool" where
  "short_timer_pending tid w =
     (ids_bounded w \<and> activeStreaming w \<and> silenceTimeout w = Some tid
      \<and> maxSilenceTimeout w = None
      \<and> timers w = [(tid, HandleSilence, silenceDuration (config w))])"

text \<open>
  Vocabulary for the arithmetic. The rounding of \<open>x\<close> has relative error at most \<open>u\<close>;
  every rounding made by \<open>reduce\<close> from an accumulator has; every rounding made by
  \<open>_detectVoiceActivity\<close> on a frame has. For the rounding of doubles to nearest the
  last holds with \<open>u = 2^-53\<close> on every frame of a \<open>Float32Array\<close>, whose non-zero
  squares are far above the subnormal range. \<open>exact\<close> is the arithmetic that never rounds.
\<close>

definition rounds_within :: "rounding \<Rightarrow> real \<Rightarrow> real \<Rightarrow> bool" where
  "rounds_within fl u x = (abs (fl x - x) \<le> u * abs x)"

fun fold_within :: "rounding \<Rightarrow> real \<Rightarrow> real \<Rightarrow> real list \<Rightarrow> bool" where
  "fold_within fl u acc [] = True"
| "fold_within fl u acc (val # rest) =
     (rounds_within fl u (val * val) \<and> rounds_within fl u (acc + fl (val * val))
      \<and> fold_within fl u (fl (acc + fl (val * val))) rest)"

definition roundings_within :: "rounding \<Rightarrow> real \<Rightarrow> real list \<Rightarrow> bool" where
  "roundings_within fl u f =
     (fold_within fl u 0 f
      \<and> rounds_within fl u (reduce_squares fl 0 f / real (length f))
      \<and> rounds_within fl u (sqrt (fl (reduce_squares fl 0 f / real (length f)))))"

definition exact :: rounding where
  "exact x = x"

text \<open>
  A client built with default options in a browser that supports capture, over a store
  holding credentials that are still valid and three minutes of past usage; the answers
  of a start in which every step succeeds at time 60000; and the session after that start.
\<close>

definition default_options :: options where
  "default_options =
     \<lparr>opt_region = None, opt_languageCode = None, opt_sampleRate = None,
      opt_vadThreshold = None, opt_silenceDuration = None, opt_maxSilenceDuration = None,
      opt_bufferSize = None, opt_credentialsProvider = Some (\<lambda>m. Yields credentials_B)\<rparr>"

definition full_browser :: browser where
  "full_browser = \<lparr>hasWindow = True, hasGetUserMedia = True, hasAudioContext = True\<rparr>"

definition good_env :: start_env where
  "good_env =
     \<lparr>getUserMedia = Inr 1, newAudioContext = Inr 2, createMediaStreamSource = Inr 3,
      createScriptProcessor = Inr 4, connectNodes = None, credentialsClock = 60000,
      newTranscribeClient = 5, send = Inr 6, startedClock = 60000, failedClock = 60000\<rparr>"

definition listening_session :: world where
  "listening_session =
     snd (start good_env (new_client default_options full_browser storage_A))"

text \<open>
  Two clients over an empty store: the provider of the first rejects with an \<open>Error\<close>
  object, the provider of the second rejects without a reason, that is with \<open>undefined\<close>.
\<close>

definition refused_client :: world where
  "refused_client =
     new_client
       (default_options\<lparr>opt_credentialsProvider := Some (\<lambda>m. Rejects (JsError ''Error'' ''denied''))\<rparr>)
       full_browser
       (Some \<lparr>credentials_item = None, minutes_used_item = None\<rparr>)"

definition unreasoned_client :: world where
  "unreasoned_client =
     new_client
       (default_options\<lparr>opt_credentialsProvider := Some (\<lambda>m. Rejects ThrownUndefined)\<rparr>)
       full_browser
       (Some \<lparr>credentials_item = None, minutes_used_item = None\<rparr>)"

section \<open>Properties of the stream bridge\<close>

lemma bridge_inv_new: "bridge_inv new_stream"
  by (simp add: bridge_inv_def new_stream_def)

lemma bridge_inv_apply: "bridge_inv s \<Longrightarrow> bridge_inv (apply_op op s)"
proof (cases op)
  case (Enqueue c)
  assume "bridge_inv s"
  then show ?thesis using Enqueue
    by (cases "listeners s") (auto simp: bridge_inv_def enqueue_def)
next
  case Close
  then show ?thesis by (simp add: bridge_inv_def close_def)
next
  case (Next l)
  assume "bridge_inv s"
  then show ?thesis using Next
    by (cases "buffer s") (auto simp: bridge_inv_def next_item_def)
qed

lemma bridge_inv_run: "bridge_inv s \<Longrightarrow> bridge_inv (run_ops ops s)"
  unfolding run_ops_def
  by (induction ops arbitrary: s) (simp_all add: bridge_inv_apply)

lemma sealed_close: "sealed (fst (close s))"
  by (simp add: sealed_def close_def)

lemma sealed_apply: "sealed s \<Longrightarrow> sealed (apply_op op s)"
  by (cases op) (auto simp: sealed_def enqueue_def close_def next_item_def)

lemma sealed_run: "sealed s \<Longrightarrow> sealed (run_ops ops s)"
  unfolding run_ops_def
  by (induction ops arbitrary: s) (simp_all add: sealed_apply)

lemma drained_apply: "sealed s \<Longrightarrow> buffer s = [] \<Longrightarrow> apply_op op s = s"
  by (cases op) (auto simp: sealed_def enqueue_def close_def next_item_def)

lemma drained_run: "sealed s \<Longrightarrow> buffer s = [] \<Longrightarrow> run_ops ops s = s"
  unfolding run_ops_def
  by (induction ops) (simp_all add: drained_apply)

lemma pulls_closed:
  "closed s \<Longrightarrow>
   pulls ls s = map Resolved (map Value (take (length ls) (buffer s))
                              @ replicate (length ls - length (buffer s)) Done)"
proof (induction ls arbitrary: s)
  case Nil
  then show ?case by simp
next
  case (Cons l ls)
  show ?case
  proof (cases "buffer s")
    case Nil
    with Cons.prems have st: "next_item l s = (s, Resolved Done)"
      by (simp add: next_item_def)
    from Cons.IH [OF Cons.prems] Nil st show ?thesis
      by (simp add: replicate_app_Cons_same)
  next
    case (Cons b bs)
    then have st: "next_item l s = (s\<lparr>buffer := bs\<rparr>, Resolved (Value b))"
      by (simp add: next_item_def)
    have cl: "closed (s\<lparr>buffer := bs\<rparr>)" using Cons.prems by simp
    from Cons.IH [OF cl] Cons st show ?thesis by simp
  qed
qed

text \<open>
  C4, as amended. Under every interleaving of \<open>enqueue\<close>, \<open>close\<close> and \<open>next\<close> calls on
  a fresh bridge, the buffer and the list of waiting consumers are never both non-empty.
  An \<open>enqueue\<close> hands its item to the oldest waiting consumer when one exists; when none
  exists and the bridge is not closed it appends the item to the buffer; on a closed bridge
  it does nothing. A consumer joins the waiters, at the end of the list, only when the
  buffer is empty.
\<close>

theorem bridge_never_both:
  fixes ops :: "'a stream_op list"
  shows "(buffer (run_ops ops new_stream) = [] \<or> listeners (run_ops ops new_stream) = [])
   \<and> (\<forall>c. listeners (run_ops ops new_stream) \<noteq> [] \<longrightarrow>
          enqueue c (run_ops ops new_stream)
            = ((run_ops ops new_stream)\<lparr>listeners := tl (listeners (run_ops ops new_stream))\<rparr>,
               [(hd (listeners (run_ops ops new_stream)), Value c)]))
   \<and> (\<forall>c. listeners (run_ops ops new_stream) = [] \<and> \<not> closed (run_ops ops new_stream) \<longrightarrow>
          enqueue c (run_ops ops new_stream)
            = ((run_ops ops new_stream)\<lparr>buffer := buffer (run_ops ops new_stream) @ [c]\<rparr>, []))
   \<and> (\<forall>c. closed (run_ops ops new_stream) \<longrightarrow>
          enqueue c (run_ops ops new_stream) = (run_ops ops new_stream, []))
   \<and> (\<forall>l. listeners (fst (next_item l (run_ops ops new_stream))) \<noteq> listeners (run_ops ops new_stream)
          \<longrightarrow> buffer (run_ops ops new_stream) = []
              \<and> listeners (fst (next_item l (run_ops ops new_stream)))
                  = listeners (run_ops ops new_stream) @ [l])"
proof -
  define s where "s = run_ops ops (new_stream :: 'a readable_stream)"
  have inv: "bridge_inv s"
    unfolding s_def by (rule bridge_inv_run [OF bridge_inv_new])
  then have a: "buffer s = [] \<or> listeners s = []" and b: "closed s \<longrightarrow> listeners s = []"
    by (auto simp: bridge_inv_def)
  have c1: "\<forall>c. listeners s \<noteq> [] \<longrightarrow>
      enqueue c s = (s\<lparr>listeners := tl (listeners s)\<rparr>, [(hd (listeners s), Value c)])"
    using b by (auto simp: enqueue_def)
  have c2: "\<forall>c. listeners s = [] \<and> \<not> closed s \<longrightarrow> enqueue c s = (s\<lparr>buffer := buffer s @ [c]\<rparr>, [])"
    by (simp add: enqueue_def)
  have c3: "\<forall>c. closed s \<longrightarrow> enqueue c s = (s, [])"
    by (simp add: enqueue_def)
  have c4: "\<forall>l. listeners (fst (next_item l s)) \<noteq> listeners s
      \<longrightarrow> buffer s = [] \<and> listeners (fst (next_item l s)) = listeners s @ [l]"
    by (auto simp: next_item_def)
  from a c1 c2 c3 c4 show ?thesis unfolding s_def by blast
qed

theorem bridge_never_both_witness:
  "listeners (run_ops [Next 1, Next 2, Enqueue (10::nat), Enqueue 11, Enqueue 12] new_stream) = []
   \<and> buffer (run_ops [Next 1, Next 2, Enqueue (10::nat), Enqueue 11, Enqueue 12] new_stream) = [12]
   \<and> listeners (run_ops [Next 1, Next 2] (new_stream :: nat readable_stream)) = [1, 2]
   \<and> enqueue (10::nat) (run_ops [Next 1, Next 2] new_stream)
       = ((run_ops [Next 1, Next 2] new_stream)\<lparr>listeners := [2]\<rparr>, [(1, Value 10)])
   \<and> buffer (run_ops [Next 1, Next 2] (new_stream :: nat readable_stream)) = []"
  using bridge_never_both [of "[Next 1, Next 2] :: nat stream_op list"]
        bridge_never_both [of "[Next 1, Next 2, Enqueue (10::nat), Enqueue 11, Enqueue 12]"]
  by (simp add: run_ops_def new_stream_def next_item_def enqueue_def)

text \<open>
  The claim as stated lets every \<open>enqueue\<close> that finds no waiting consumer append to the
  buffer. After \<open>close\<close> no consumer waits, and \<open>enqueue\<close> neither appends nor delivers.
\<close>

theorem enqueue_after_close_counterexample:
  "listeners (run_ops [Close] (new_stream :: nat readable_stream)) = []
   \<and> buffer (fst (enqueue (7::nat) (run_ops [Close] new_stream))) = []
   \<and> snd (enqueue (7::nat) (run_ops [Close] new_stream)) = []"
  by (simp add: run_ops_def new_stream_def close_def enqueue_def)

text \<open>
  C5. After \<open>close()\<close>, whatever calls follow, every \<open>enqueue\<close> is a no-op. The consumers
  waiting at the moment of \<open>close\<close> are all resolved with end-of-stream, in order, and none
  is left waiting. The buffer is kept, and consumers pulling after \<open>close\<close> receive its
  items in FIFO order and end-of-stream once it is exhausted. Once the bridge is closed
  and the buffer empty, every \<open>next\<close> resolves to end-of-stream and no later call changes
  the bridge.
\<close>

theorem close_semantics:
  "(\<forall>c. enqueue c (run_ops ops (fst (close s))) = (run_ops ops (fst (close s)), []))
   \<and> snd (close s) = map (\<lambda>l. (l, Done)) (listeners s)
   \<and> listeners (fst (close s)) = []
   \<and> buffer (fst (close s)) = buffer s
   \<and> pulls ls (fst (close s))
        = map Resolved (map Value (take (length ls) (buffer s))
                        @ replicate (length ls - length (buffer s)) Done)
   \<and> (buffer (run_ops ops (fst (close s))) = [] \<longrightarrow>
        (\<forall>l. next_item l (run_ops ops (fst (close s)))
                = (run_ops ops (fst (close s)), Resolved Done))
        \<and> (\<forall>more. run_ops more (run_ops ops (fst (close s))) = run_ops ops (fst (close s))))"
proof -
  define t where "t = run_ops ops (fst (close s))"
  have sealed_t: "sealed t"
    unfolding t_def by (rule sealed_run [OF sealed_close])
  have noop: "\<forall>c. enqueue c t = (t, [])"
    using sealed_t by (simp add: sealed_def enqueue_def)
  have woken: "snd (close s) = map (\<lambda>l. (l, Done)) (listeners s)"
    and none_left: "listeners (fst (close s)) = []"
    and kept: "buffer (fst (close s)) = buffer s"
    by (simp_all add: close_def)
  have fifo: "pulls ls (fst (close s))
        = map Resolved (map Value (take (length ls) (buffer s))
                        @ replicate (length ls - length (buffer s)) Done)"
    using pulls_closed [of "fst (close s)" ls] by (simp add: close_def)
  have drained: "buffer t = [] \<longrightarrow>
        (\<forall>l. next_item l t = (t, Resolved Done)) \<and> (\<forall>more. run_ops more t = t)"
    using sealed_t drained_run [of t] by (auto simp: sealed_def next_item_def)
  from noop woken none_left kept fifo drained show ?thesis
    unfolding t_def by blast
qed

theorem close_semantics_witness:
  "snd (close (run_ops [Next 4, Next 5] (new_stream :: nat readable_stream))) = [(4, Done), (5, Done)]
   \<and> pulls [6, 7, 8, 9] (fst (close (run_ops [Enqueue (1::nat), Enqueue 2] new_stream)))
        = [Resolved (Value 1), Resolved (Value 2), Resolved Done, Resolved Done]
   \<and> next_item 6 (run_ops [Enqueue 3] (fst (close (new_stream :: nat readable_stream))))
        = (run_ops [Enqueue 3] (fst (close new_stream)), Resolved Done)"
proof -
  have w: "listeners (run_ops [Next 4, Next 5] (new_stream :: nat readable_stream)) = [4, 5]"
    by (simp add: run_ops_def new_stream_def next_item_def)
  have b: "buffer (run_ops [Enqueue (1::nat), Enqueue 2] new_stream) = [1, 2]"
    by (simp add: run_ops_def new_stream_def enqueue_def)
  have e: "buffer (run_ops [Enqueue (3::nat)] (fst (close new_stream))) = []"
    by (simp add: run_ops_def new_stream_def enqueue_def close_def)
  from w close_semantics [where s = "run_ops [Next 4, Next 5] (new_stream :: nat readable_stream)"]
  have 1: "snd (close (run_ops [Next 4, Next 5] (new_stream :: nat readable_stream)))
      = [(4, Done), (5, Done)]"
    by simp
  from b close_semantics [where s = "run_ops [Enqueue (1::nat), Enqueue 2] new_stream"
                             and ls = "[6, 7, 8, 9]"]
  have 2: "pulls [6, 7, 8, 9] (fst (close (run_ops [Enqueue (1::nat), Enqueue 2] new_stream)))
        = [Resolved (Value 1), Resolved (Value 2), Resolved Done, Resolved Done]"
    by (simp add: numeral_eq_Suc)
  from e close_semantics [where s = "new_stream :: nat readable_stream" and ops = "[Enqueue 3]"]
  have 3: "next_item 6 (run_ops [Enqueue 3] (fst (close (new_stream :: nat readable_stream))))
        = (run_ops [Enqueue 3] (fst (close new_stream)), Resolved Done)"
    by blast
  from 1 2 3 show ?thesis by blast
qed

section \<open>Properties of the credential fetch\<close>

lemma getCredentials_hit:
  "cached now ls = Some c \<Longrightarrow> getCredentials (Some p) now ls = (Inr c, ls, [])"
  by (auto simp: cached_def getCredentials_def loadStoredCredentials_def
           split: option.splits blob.splits if_splits)

lemma getCredentials_miss:
  "cached now ls = None \<Longrightarrow>
   getCredentials (Some p) now ls = fetch_fresh p (snd (loadStoredCredentials ls))"
  by (auto simp: cached_def getCredentials_def loadStoredCredentials_def
           split: option.splits blob.splits if_splits)

lemma minutes_after_load: "getMinutesUsed (snd (loadStoredCredentials ls)) = getMinutesUsed ls"
  by (auto simp: loadStoredCredentials_def getMinutesUsed_def split: option.splits blob.splits)

lemma class_agrees:
  "(\<forall>st e. ls = Some st \<longrightarrow> credentials_item st \<noteq> Some (Malformed e)) \<Longrightarrow>
   AWSCredentials_getCredentials pr now ls = getCredentials pr now ls"
  by (auto simp: AWSCredentials_getCredentials_def getCredentials_def loadStoredCredentials_def
                 AWSCredentials_loadStoredCredentials_def
           split: option.splits blob.splits)

text \<open>
  C6, as amended. Without a configured provider the fetch fails with an error, also when
  a usable credential is cached. With a provider: a cached credential whose expiration is
  strictly later than the current time is returned, the provider is not invoked and the
  store is left as it is; otherwise the provider is invoked exactly once, with the
  accumulated usage minutes, and its credentials are returned and persisted over the cache
  entry, while a provider that yields nothing makes the fetch fail and a rejection of the
  provider is passed on. The fetch of class \<open>AWSCredentials\<close> does the same on every store
  whose credential item is not malformed.
\<close>

theorem getCredentials_policy:
  "getCredentials None now ls = (Inl (JsError ''Error'' ''No credentials provider available''), ls, [])
   \<and> (\<forall>c. cached now ls = Some c \<longrightarrow> getCredentials (Some p) now ls = (Inr c, ls, []))
   \<and> (cached now ls = None \<longrightarrow>
        snd (snd (getCredentials (Some p) now ls)) = [getMinutesUsed ls]
        \<and> (\<forall>c. p (getMinutesUsed ls) = Yields c \<longrightarrow>
              fst (getCredentials (Some p) now ls) = Inr c
              \<and> fst (snd (getCredentials (Some p) now ls))
                  = storeCredentials (Some c) (snd (loadStoredCredentials ls))
              \<and> (ls \<noteq> None \<longrightarrow> cached now (fst (snd (getCredentials (Some p) now ls)))
                                  = (if not_expired now c then Some c else None)))
        \<and> (p (getMinutesUsed ls) = YieldsNothing \<longrightarrow>
              fst (getCredentials (Some p) now ls) = Inl (JsError ''Error'' ''No credentials available''))
        \<and> (\<forall>e. p (getMinutesUsed ls) = Rejects e \<longrightarrow> fst (getCredentials (Some p) now ls) = Inl e))
   \<and> ((\<forall>st e. ls = Some st \<longrightarrow> credentials_item st \<noteq> Some (Malformed e)) \<longrightarrow>
        AWSCredentials_getCredentials (Some p) now ls = getCredentials (Some p) now ls)"
proof -
  have none: "getCredentials None now ls
      = (Inl (JsError ''Error'' ''No credentials provider available''), ls, [])"
    by (simp add: getCredentials_def)
  have hit: "\<forall>c. cached now ls = Some c \<longrightarrow> getCredentials (Some p) now ls = (Inr c, ls, [])"
    by (simp add: getCredentials_hit)
  have miss: "cached now ls = None \<longrightarrow>
        snd (snd (getCredentials (Some p) now ls)) = [getMinutesUsed ls]
        \<and> (\<forall>c. p (getMinutesUsed ls) = Yields c \<longrightarrow>
              fst (getCredentials (Some p) now ls) = Inr c
              \<and> fst (snd (getCredentials (Some p) now ls))
                  = storeCredentials (Some c) (snd (loadStoredCredentials ls))
              \<and> (ls \<noteq> None \<longrightarrow> cached now (fst (snd (getCredentials (Some p) now ls)))
                                  = (if not_expired now c then Some c else None)))
        \<and> (p (getMinutesUsed ls) = YieldsNothing \<longrightarrow>
              fst (getCredentials (Some p) now ls) = Inl (JsError ''Error'' ''No credentials available''))
        \<and> (\<forall>e. p (getMinutesUsed ls) = Rejects e \<longrightarrow> fst (getCredentials (Some p) now ls) = Inl e)"
  proof
    assume m: "cached now ls = None"
    have eq: "getCredentials (Some p) now ls = fetch_fresh p (snd (loadStoredCredentials ls))"
      by (rule getCredentials_miss [OF m])
    have stored: "\<And>c. ls \<noteq> None \<Longrightarrow>
        cached now (storeCredentials (Some c) (snd (loadStoredCredentials ls)))
          = (if not_expired now c then Some c else None)"
      by (auto simp: cached_def storeCredentials_def loadStoredCredentials_def
               split: option.splits blob.splits)
    show "snd (snd (getCredentials (Some p) now ls)) = [getMinutesUsed ls]
        \<and> (\<forall>c. p (getMinutesUsed ls) = Yields c \<longrightarrow>
              fst (getCredentials (Some p) now ls) = Inr c
              \<and> fst (snd (getCredentials (Some p) now ls))
                  = storeCredentials (Some c) (snd (loadStoredCredentials ls))
              \<and> (ls \<noteq> None \<longrightarrow> cached now (fst (snd (getCredentials (Some p) now ls)))
                                  = (if not_expired now c then Some c else None)))
        \<and> (p (getMinutesUsed ls) = YieldsNothing \<longrightarrow>
              fst (getCredentials (Some p) now ls) = Inl (JsError ''Error'' ''No credentials available''))
        \<and> (\<forall>e. p (getMinutesUsed ls) = Rejects e \<longrightarrow> fst (getCredentials (Some p) now ls) = Inl e)"
      unfolding eq using stored
      by (simp add: fetch_fresh_def minutes_after_load split: provider_outcome.splits)
  qed
  have agree: "(\<forall>st e. ls = Some st \<longrightarrow> credentials_item st \<noteq> Some (Malformed e)) \<longrightarrow>
        AWSCredentials_getCredentials (Some p) now ls = getCredentials (Some p) now ls"
    using class_agrees by blast
  from none hit miss agree show ?thesis by blast
qed


theorem getCredentials_policy_witness:
  "getCredentials (Some (\<lambda>m. Yields credentials_B)) 0 storage_A = (Inr credentials_A, storage_A, [])
   \<and> snd (snd (getCredentials (Some (\<lambda>m. Yields credentials_B)) 301000 storage_A)) = [3]
   \<and> fst (getCredentials (Some (\<lambda>m. Yields credentials_B)) 301000 storage_A) = Inr credentials_B
   \<and> cached 301000 (fst (snd (getCredentials (Some (\<lambda>m. Yields credentials_B)) 301000 storage_A)))
        = Some credentials_B"
proof -
  have fresh: "cached 0 storage_A = Some credentials_A"
    by (simp add: cached_def storage_A_def credentials_A_def not_expired_def)
  have stale: "cached 301000 storage_A = None"
    by (simp add: cached_def storage_A_def credentials_A_def not_expired_def)
  have used: "getMinutesUsed storage_A = 3"
    by (simp add: getMinutesUsed_def storage_A_def)
  have later: "not_expired 301000 credentials_B"
    by (simp add: credentials_B_def not_expired_def)
  have some: "storage_A \<noteq> None"
    by (simp add: storage_A_def)
  from fresh getCredentials_policy [where now = 0 and ls = storage_A and p = "\<lambda>m. Yields credentials_B"]
  have a: "getCredentials (Some (\<lambda>m. Yields credentials_B)) 0 storage_A = (Inr credentials_A, storage_A, [])"
    by blast
  from stale used later some
    getCredentials_policy [where now = 301000 and ls = storage_A and p = "\<lambda>m. Yields credentials_B"]
  have b: "snd (snd (getCredentials (Some (\<lambda>m. Yields credentials_B)) 301000 storage_A)) = [3]
     \<and> fst (getCredentials (Some (\<lambda>m. Yields credentials_B)) 301000 storage_A) = Inr credentials_B
     \<and> cached 301000 (fst (snd (getCredentials (Some (\<lambda>m. Yields credentials_B)) 301000 storage_A)))
          = Some credentials_B"
    by clarsimp
  from a b show ?thesis by blast
qed

text \<open>
  The claim as stated returns a cached, unexpired credential on every call. The test for
  the provider comes first: without one the call fails although such a credential is cached.
\<close>

theorem no_provider_counterexample:
  "cached 0 storage_A = Some credentials_A
   \<and> getCredentials None 0 storage_A
       = (Inl (JsError ''Error'' ''No credentials provider available''), storage_A, [])"
  by (simp add: cached_def storage_A_def credentials_A_def not_expired_def getCredentials_def)

text \<open>
  C7, as amended. On a stored credential item that fails to parse, both loaders remove the
  item from the store. The fetch of class \<open>AWSCredentials\<close> then re-raises the parse error
  to its caller and does not invoke the provider. The fetch of the client built on the
  module-level \<open>loadStoredCredentials\<close> takes the cache as empty instead and goes on to
  fetch fresh credentials, invoking the provider once.
\<close>

theorem malformed_blob_handling:
  assumes "credentials_item st = Some (Malformed e)"
  shows "AWSCredentials_loadStoredCredentials (Some st) = (Inl e, Some (st\<lparr>credentials_item := None\<rparr>))
    \<and> AWSCredentials_getCredentials (Some p) now (Some st)
        = (Inl e, Some (st\<lparr>credentials_item := None\<rparr>), [])
    \<and> loadStoredCredentials (Some st) = (None, Some (st\<lparr>credentials_item := None\<rparr>))
    \<and> getCredentials (Some p) now (Some st) = fetch_fresh p (Some (st\<lparr>credentials_item := None\<rparr>))
    \<and> snd (snd (getCredentials (Some p) now (Some st))) = [getMinutesUsed (Some st)]"
  using assms
  by (simp add: AWSCredentials_loadStoredCredentials_def AWSCredentials_getCredentials_def
                loadStoredCredentials_def getCredentials_def fetch_fresh_def getMinutesUsed_def
           split: provider_outcome.splits)

theorem malformed_blob_handling_witness:
  "AWSCredentials_getCredentials (Some (\<lambda>m. Yields credentials_B)) 0 storage_corrupt
     = (Inl (JsError ''SyntaxError'' ''Unexpected token''),
        Some \<lparr>credentials_item = None, minutes_used_item = None\<rparr>, [])
   \<and> snd (snd (getCredentials (Some (\<lambda>m. Yields credentials_B)) 0 storage_corrupt)) = [0]"
  using malformed_blob_handling
          [where st = "\<lparr>credentials_item = Some (Malformed (JsError ''SyntaxError'' ''Unexpected token'')),
                         minutes_used_item = None\<rparr>"
             and e = "JsError ''SyntaxError'' ''Unexpected token''"
             and p = "\<lambda>m. Yields credentials_B" and now = 0]
  by (simp add: storage_corrupt_def getMinutesUsed_def fetch_fresh_def)

text \<open>
  The claim as stated has every failed parse re-raised. With the module-level loader a
  malformed item is dropped and the provider's credentials are returned and stored: the
  caller sees no error.
\<close>

theorem silent_refetch_counterexample:
  "getCredentials (Some (\<lambda>m. Yields credentials_B)) 0 storage_corrupt
     = (Inr credentials_B,
        Some \<lparr>credentials_item = Some (Json credentials_B), minutes_used_item = None\<rparr>, [0])"
  by (simp add: storage_corrupt_def getCredentials_def loadStoredCredentials_def fetch_fresh_def
                getMinutesUsed_def storeCredentials_def)

section \<open>Properties of the voice activity detector\<close>

lemma rounded_between:
  assumes "rounds_within fl u x" and "0 \<le> x"
  shows "(1 - u) * x \<le> fl x" and "fl x \<le> (1 + u) * x"
  using assms by (simp_all add: rounds_within_def abs_le_iff algebra_simps)

lemma reduce_squares_Cons:
  "reduce_squares fl acc (v # vs) = reduce_squares fl (fl (acc + fl (v * v))) vs"
  by (simp add: reduce_squares_def)

lemma reduce_squares_bounds:
  assumes u: "0 \<le> u" "u < 1"
  shows "0 \<le> A \<Longrightarrow> (1 - u) ^ k * A \<le> acc \<Longrightarrow> acc \<le> (1 + u) ^ k * A \<Longrightarrow>
         fold_within fl u acc vs \<Longrightarrow>
         (1 - u) ^ (k + 2 * length vs) * (A + (\<Sum>x\<leftarrow>vs. x * x)) \<le> reduce_squares fl acc vs
         \<and> reduce_squares fl acc vs \<le> (1 + u) ^ (k + 2 * length vs) * (A + (\<Sum>x\<leftarrow>vs. x * x))"
proof (induction vs arbitrary: A k acc)
  case Nil
  then show ?case by (simp add: reduce_squares_def)
next
  case (Cons v vs)
  define a where "a = 1 - u"
  define b where "b = 1 + u"
  have a: "0 < a" "a \<le> 1" and b: "1 \<le> b" using u by (simp_all add: a_def b_def)
  define p where "p = fl (v * v)"
  define acc' where "acc' = fl (acc + p)"
  have sq: "0 \<le> v * v" by simp
  from Cons.prems(4) have w1: "rounds_within fl u (v * v)"
    and w2: "rounds_within fl u (acc + p)" and w3: "fold_within fl u acc' vs"
    by (simp_all add: p_def acc'_def)
  have p_lo: "a * (v * v) \<le> p" and p_hi: "p \<le> b * (v * v)"
    using rounded_between [OF w1 sq] by (simp_all add: a_def b_def p_def)
  have acc_lo: "a ^ k * A \<le> acc" and acc_hi: "acc \<le> b ^ k * A"
    using Cons.prems(2,3) by (simp_all add: a_def b_def)
  have acc0: "0 \<le> acc"
    using acc_lo a Cons.prems(1) by (meson mult_nonneg_nonneg order_trans zero_le_power less_imp_le)
  have p0: "0 \<le> p" using p_lo a sq by (meson mult_nonneg_nonneg order_trans less_imp_le)
  have sum0: "0 \<le> acc + p" using acc0 p0 by simp
  have acc'_lo: "a * (acc + p) \<le> acc'" and acc'_hi: "acc' \<le> b * (acc + p)"
    using rounded_between [OF w2 sum0] by (simp_all add: a_def b_def acc'_def)
  have ak: "a ^ Suc k \<le> a ^ k" "a ^ Suc k \<le> a"
    using a by (simp_all add: mult_left_le_one_le power_le_one mult_left_le)
  have bk: "b ^ k \<le> b ^ Suc k" "b \<le> b ^ Suc k"
    using b by (simp_all add: mult_le_cancel_right1 one_le_power)
  have "a ^ Suc k * (A + v * v) = a ^ Suc k * A + a ^ Suc k * (v * v)"
    by (simp add: algebra_simps)
  also have "\<dots> \<le> a ^ k * A + a * (v * v)"
    by (intro add_mono mult_right_mono ak Cons.prems(1) sq)
  also have "\<dots> \<le> acc + p"
    using acc_lo p_lo by simp
  finally have "a * (a ^ Suc k * (A + v * v)) \<le> a * (acc + p)"
    using a by simp
  with acc'_lo have lo: "a ^ (k + 2) * (A + v * v) \<le> acc'"
    by (simp add: algebra_simps)
  have "acc + p \<le> b ^ k * A + b * (v * v)"
    using acc_hi p_hi by simp
  also have "\<dots> \<le> b ^ Suc k * A + b ^ Suc k * (v * v)"
    by (intro add_mono mult_right_mono bk Cons.prems(1) sq)
  also have "\<dots> = b ^ Suc k * (A + v * v)"
    by (simp add: algebra_simps)
  finally have "b * (acc + p) \<le> b * (b ^ Suc k * (A + v * v))"
    using b by simp
  with acc'_hi have hi: "acc' \<le> b ^ (k + 2) * (A + v * v)"
    by (simp add: algebra_simps)
  have A': "0 \<le> A + v * v" using Cons.prems(1) by simp
  from Cons.IH [OF A' lo [unfolded a_def] hi [unfolded b_def] w3]
  show ?case
    by (simp add: reduce_squares_Cons p_def acc'_def add.assoc algebra_simps)
qed


lemma squares_nonneg: "0 \<le> (\<Sum>x\<leftarrow>xs. x * x)" for xs :: "real list"
  by (induction xs) simp_all

lemma frame_rms_empty: "frame_rms fl [] = NaN"
  by (simp add: frame_rms_def js_div_def reduce_squares_def)

lemma sqrt_shrinks: "0 \<le> y \<Longrightarrow> y \<le> 1 \<Longrightarrow> y \<le> sqrt y"
  by (rule real_le_rsqrt) (simp add: power2_eq_square mult_left_le)

lemma sqrt_grows: "1 \<le> y \<Longrightarrow> sqrt y \<le> y"
  by (rule real_le_lsqrt) (simp_all add: power2_eq_square)

lemma frame_rms_bounds:
  assumes u: "0 \<le> u" "u < 1" and f: "f \<noteq> []" and r: "roundings_within fl u f"
  shows "\<exists>r. frame_rms fl f = Num r
            \<and> (1 - u) ^ (2 * length f + 2) * spec_rms f \<le> r
            \<and> r \<le> (1 + u) ^ (2 * length f + 2) * spec_rms f"
proof -
  define n where "n = length f"
  define S where "S = (\<Sum>x\<leftarrow>f. x * x)"
  define Sc where "Sc = reduce_squares fl 0 f"
  define q where "q = fl (Sc / real n)"
  define a where "a = 1 - u"
  define b where "b = 1 + u"
  have a: "0 < a" "a \<le> 1" and b: "1 \<le> b" using u by (simp_all add: a_def b_def)
  have n: "0 < n" using f by (simp add: n_def)
  have S0: "0 \<le> S" unfolding S_def by (rule squares_nonneg)
  from r have w1: "fold_within fl u 0 f" and w2: "rounds_within fl u (Sc / real n)"
    and w3: "rounds_within fl u (sqrt q)"
    by (simp_all add: roundings_within_def Sc_def n_def q_def)
  have "(1 - u) ^ (0 + 2 * length f) * (0 + (\<Sum>x\<leftarrow>f. x * x)) \<le> reduce_squares fl 0 f
      \<and> reduce_squares fl 0 f \<le> (1 + u) ^ (0 + 2 * length f) * (0 + (\<Sum>x\<leftarrow>f. x * x))"
    by (rule reduce_squares_bounds [OF u _ _ _ w1]) simp_all
  then have Sc_lo: "a ^ (2 * n) * S \<le> Sc" and Sc_hi: "Sc \<le> b ^ (2 * n) * S"
    by (simp_all add: a_def b_def n_def S_def Sc_def)
  have Sc0: "0 \<le> Sc"
    using Sc_lo a S0 by (meson mult_nonneg_nonneg order_trans zero_le_power less_imp_le)
  have d0: "0 \<le> Sc / real n" using Sc0 by simp
  have q_lo: "a * (Sc / real n) \<le> q" and q_hi: "q \<le> b * (Sc / real n)"
    using rounded_between [OF w2 d0] by (simp_all add: a_def b_def q_def)
  have q0: "0 \<le> q"
    using q_lo a d0 by (meson mult_nonneg_nonneg order_trans less_imp_le)
  have form: "frame_rms fl f = Num (fl (sqrt q))"
    using n q0 by (simp add: frame_rms_def js_div_def q_def Sc_def n_def not_less)
  have R: "spec_rms f = sqrt (S / real n)"
    using f by (simp add: spec_rms_def S_def n_def)
  have R0: "0 \<le> sqrt (S / real n)" using S0 by simp
  define ca where "ca = a ^ (2 * n + 1)"
  define cb where "cb = b ^ (2 * n + 1)"
  have ca: "0 \<le> ca" "ca \<le> 1" and ca_eq: "ca = a * a ^ (2 * n)"
    using a by (simp_all add: ca_def power_le_one mult_le_one)
  have cb: "1 \<le> cb" and cb_eq: "cb = b * b ^ (2 * n)"
    using b by (simp_all add: cb_def one_le_power mult_ge1_I)
  have "ca * (S / real n) = a * (a ^ (2 * n) * S / real n)"
    by (simp add: ca_eq)
  also have "\<dots> \<le> a * (Sc / real n)"
    using Sc_lo a n by (simp add: divide_right_mono)
  also have "\<dots> \<le> q" by (rule q_lo)
  finally have "sqrt (ca * (S / real n)) \<le> sqrt q"
    by (simp only: real_sqrt_le_iff)
  then have "sqrt ca * sqrt (S / real n) \<le> sqrt q"
    by (simp only: real_sqrt_mult)
  moreover have "ca \<le> sqrt ca"
    using ca by (intro sqrt_shrinks)
  ultimately have s_lo: "ca * sqrt (S / real n) \<le> sqrt q"
    using R0 by (meson mult_right_mono order_trans)
  have "q \<le> b * (Sc / real n)" by (rule q_hi)
  also have "\<dots> \<le> b * (b ^ (2 * n) * S / real n)"
    using Sc_hi b n by (simp add: divide_right_mono)
  also have "\<dots> = cb * (S / real n)"
    by (simp add: cb_eq)
  finally have "sqrt q \<le> sqrt (cb * (S / real n))"
    by (simp only: real_sqrt_le_iff)
  then have "sqrt q \<le> sqrt cb * sqrt (S / real n)"
    by (simp only: real_sqrt_mult)
  moreover have "sqrt cb \<le> cb"
    using cb by (intro sqrt_grows)
  ultimately have s_hi: "sqrt q \<le> cb * sqrt (S / real n)"
    using R0 by (meson mult_right_mono order_trans)
  have sq0: "0 \<le> sqrt q" using q0 by simp
  have r_lo: "a * sqrt q \<le> fl (sqrt q)" and r_hi: "fl (sqrt q) \<le> b * sqrt q"
    using rounded_between [OF w3 sq0] by (simp_all add: a_def b_def)
  have "a ^ (2 * n + 2) * sqrt (S / real n) = a * (ca * sqrt (S / real n))"
    by (simp add: ca_eq)
  also have "\<dots> \<le> a * sqrt q"
    using s_lo a by simp
  also have "\<dots> \<le> fl (sqrt q)" by (rule r_lo)
  finally have lo: "a ^ (2 * n + 2) * sqrt (S / real n) \<le> fl (sqrt q)" .
  have "fl (sqrt q) \<le> b * sqrt q" by (rule r_hi)
  also have "\<dots> \<le> b * (cb * sqrt (S / real n))"
    using s_hi b by simp
  also have "\<dots> = b ^ (2 * n + 2) * sqrt (S / real n)"
    by (simp add: cb_eq)
  finally have hi: "fl (sqrt q) \<le> b ^ (2 * n + 2) * sqrt (S / real n)" .
  from form lo hi show ?thesis
    by (simp add: R a_def b_def n_def)
qed

text \<open>
  C8, as amended. The empty frame is classified as silence for every threshold: its
  root-mean-square is computed as \<open>0 / 0\<close>, which is NaN and exceeds nothing, and no error
  is raised. On a non-empty frame of \<open>n\<close> samples the classifier returns true if and only
  if the root-mean-square as the code computes it in double arithmetic exceeds the
  threshold. When every rounding of that computation has relative error at most \<open>u\<close>, the
  computed value lies between \<open>(1 - u)^(2n+2)\<close> and \<open>(1 + u)^(2n+2)\<close> times \<open>rms(f)\<close>: the
  classifier returns true whenever \<open>t\<close> is below the lower bound and false whenever \<open>t\<close>
  is at or above the upper bound, and when nothing is rounded it returns \<open>rms(f) > t\<close>.
  For a threshold between the bounds the rounding decides.
\<close>

theorem detectVoiceActivity_rms:
  "detectVoiceActivity fl t [] = False
   \<and> frame_rms fl [] = NaN
   \<and> (f \<noteq> [] \<and> 0 \<le> u \<and> u < 1 \<and> roundings_within fl u f \<longrightarrow>
        (\<exists>r. frame_rms fl f = Num r
            \<and> (1 - u) ^ (2 * length f + 2) * spec_rms f \<le> r
            \<and> r \<le> (1 + u) ^ (2 * length f + 2) * spec_rms f
            \<and> detectVoiceActivity fl t f = (r > t))
      \<and> (t < (1 - u) ^ (2 * length f + 2) * spec_rms f \<longrightarrow> detectVoiceActivity fl t f)
      \<and> ((1 + u) ^ (2 * length f + 2) * spec_rms f \<le> t \<longrightarrow> \<not> detectVoiceActivity fl t f))
   \<and> (f \<noteq> [] \<and> roundings_within fl 0 f \<longrightarrow> detectVoiceActivity fl t f = (spec_rms f > t))"
proof -
  have empty: "detectVoiceActivity fl t [] = False" "frame_rms fl [] = NaN"
    by (simp_all add: detectVoiceActivity_def frame_rms_empty)
  have band: "f \<noteq> [] \<and> 0 \<le> u \<and> u < 1 \<and> roundings_within fl u f \<longrightarrow>
        (\<exists>r. frame_rms fl f = Num r
            \<and> (1 - u) ^ (2 * length f + 2) * spec_rms f \<le> r
            \<and> r \<le> (1 + u) ^ (2 * length f + 2) * spec_rms f
            \<and> detectVoiceActivity fl t f = (r > t))
      \<and> (t < (1 - u) ^ (2 * length f + 2) * spec_rms f \<longrightarrow> detectVoiceActivity fl t f)
      \<and> ((1 + u) ^ (2 * length f + 2) * spec_rms f \<le> t \<longrightarrow> \<not> detectVoiceActivity fl t f)"
    for u
  proof
    assume h: "f \<noteq> [] \<and> 0 \<le> u \<and> u < 1 \<and> roundings_within fl u f"
    then obtain r where r: "frame_rms fl f = Num r"
      and lo: "(1 - u) ^ (2 * length f + 2) * spec_rms f \<le> r"
      and hi: "r \<le> (1 + u) ^ (2 * length f + 2) * spec_rms f"
      using frame_rms_bounds [of u f fl] by blast
    have d: "detectVoiceActivity fl t f = (r > t)"
      by (simp add: detectVoiceActivity_def r)
    from r lo hi d show "(\<exists>r. frame_rms fl f = Num r
            \<and> (1 - u) ^ (2 * length f + 2) * spec_rms f \<le> r
            \<and> r \<le> (1 + u) ^ (2 * length f + 2) * spec_rms f
            \<and> detectVoiceActivity fl t f = (r > t))
      \<and> (t < (1 - u) ^ (2 * length f + 2) * spec_rms f \<longrightarrow> detectVoiceActivity fl t f)
      \<and> ((1 + u) ^ (2 * length f + 2) * spec_rms f \<le> t \<longrightarrow> \<not> detectVoiceActivity fl t f)"
      by auto
  qed
  have unrounded: "f \<noteq> [] \<and> roundings_within fl 0 f \<longrightarrow>
      detectVoiceActivity fl t f = (spec_rms f > t)"
    using band [of 0] by auto
  from empty band [of u] unrounded show ?thesis by blast
qed

theorem detectVoiceActivity_rms_witness:
  "detectVoiceActivity exact (2 / 100) [5 / 100] \<and> \<not> detectVoiceActivity exact (2 / 100) [1 / 100]
   \<and> \<not> detectVoiceActivity exact (2 / 100) []"
proof -
  have a: "sqrt ((5 / 100) * (5 / 100)) = (5 / 100 :: real)"
    by (simp only: real_sqrt_abs2)
  have b: "sqrt ((1 / 100) * (1 / 100)) = (1 / 100 :: real)"
    by (simp only: real_sqrt_abs2)
  have rms: "spec_rms [5 / 100] = 5 / 100" "spec_rms [1 / 100] = 1 / 100"
    using a b by (simp_all add: spec_rms_def del: real_sqrt_abs2)
  have ok: "roundings_within exact 0 [5 / 100]" "roundings_within exact 0 [1 / 100]"
    by (simp_all add: roundings_within_def rounds_within_def exact_def)
  from rms ok show ?thesis
    using detectVoiceActivity_rms [of exact "2 / 100" "[5 / 100]" 0]
          detectVoiceActivity_rms [of exact "2 / 100" "[1 / 100]" 0]
    by simp
qed

text \<open>
  The claim as stated asks both for \<open>rms(f) > t\<close> with the root-mean-square of the empty
  frame 0 and for silence on the empty frame at every threshold. At the threshold \<open>-1\<close>
  the two differ, and the classifier, whatever the rounding, returns silence.
\<close>

theorem empty_frame_counterexample:
  "spec_classify [] (- 1) \<and> \<not> detectVoiceActivity exact (- 1) []"
  by (simp add: spec_classify_def spec_rms_def detectVoiceActivity_def frame_rms_def js_div_def
                reduce_squares_def)

section \<open>Properties of the configuration defaults\<close>

lemma number_or_defaulted: "defaulted supplied dflt (number_or supplied dflt)"
  by (auto simp: defaulted_def number_or_def split: option.splits)

text \<open>
  C10. For every options object, each numeric option (\<open>sampleRate\<close>, \<open>vadThreshold\<close>,
  \<open>silenceDuration\<close>, \<open>maxSilenceDuration\<close>, \<open>bufferSize\<close>) supplied with the value 0 is
  replaced by the library default, as an absent option is; a supplied non-zero value is
  used; and only a non-zero supplied value makes the configuration differ from the default.
\<close>

theorem zero_option_takes_default:
  "defaulted (opt_sampleRate opts) 44100 (sampleRate (make_config opts))
   \<and> defaulted (opt_vadThreshold opts) VAD_THRESHOLD (vadThreshold (make_config opts))
   \<and> defaulted (opt_silenceDuration opts) SILENCE_DURATION (silenceDuration (make_config opts))
   \<and> defaulted (opt_maxSilenceDuration opts) MAX_SILENCE_DURATION (maxSilenceDuration (make_config opts))
   \<and> defaulted (opt_bufferSize opts) BUFFER_SIZE (bufferSize (make_config opts))"
  by (simp add: make_config_def number_or_defaulted)

theorem zero_option_takes_default_witness:
  "vadThreshold (make_config
     \<lparr>opt_region = None, opt_languageCode = None, opt_sampleRate = Some 0,
      opt_vadThreshold = Some 0, opt_silenceDuration = Some 0, opt_maxSilenceDuration = Some 250,
      opt_bufferSize = None, opt_credentialsProvider = None\<rparr>) = 2 / 100
   \<and> sampleRate (make_config
     \<lparr>opt_region = None, opt_languageCode = None, opt_sampleRate = Some 0,
      opt_vadThreshold = Some 0, opt_silenceDuration = Some 0, opt_maxSilenceDuration = Some 250,
      opt_bufferSize = None, opt_credentialsProvider = None\<rparr>) = 44100
   \<and> silenceDuration (make_config
     \<lparr>opt_region = None, opt_languageCode = None, opt_sampleRate = Some 0,
      opt_vadThreshold = Some 0, opt_silenceDuration = Some 0, opt_maxSilenceDuration = Some 250,
      opt_bufferSize = None, opt_credentialsProvider = None\<rparr>) = 1000
   \<and> maxSilenceDuration (make_config
     \<lparr>opt_region = None, opt_languageCode = None, opt_sampleRate = Some 0,
      opt_vadThreshold = Some 0, opt_silenceDuration = Some 0, opt_maxSilenceDuration = Some 250,
      opt_bufferSize = None, opt_credentialsProvider = None\<rparr>) = 250"
  using zero_option_takes_default
          [of "\<lparr>opt_region = None, opt_languageCode = None, opt_sampleRate = Some 0,
                opt_vadThreshold = Some 0, opt_silenceDuration = Some 0,
                opt_maxSilenceDuration = Some 250,
                opt_bufferSize = None, opt_credentialsProvider = None\<rparr>"]
  by (simp add: defaulted_def VAD_THRESHOLD_def SILENCE_DURATION_def)

section \<open>Properties of the result consumption\<close>

lemma process_spec_events:
  "processTranscriptionResults committed (map (\<lambda>e. Yielded (spec_event e)) es)
     = (spec_committed committed es, map (\<lambda>r. OnTranscript (fst r) (snd r)) (spec_reports committed es))"
proof (induction es arbitrary: committed)
  case Nil
  then show ?case by simp
next
  case (Cons e es)
  obtain isPartial str where e: "e = (isPartial, str)" by (cases e)
  have step: "\<And>b. handle_event committed (spec_event (b, str))
      = (if b then (committed, [OnTranscript committed str])
         else (committed @ str @ '' '', [OnTranscript (committed @ str @ '' '') []]))"
    by (simp add: handle_event_def spec_event_def first_transcript_def)
  show ?case
    unfolding e by (cases isPartial) (simp_all add: step Cons.IH)
qed

text \<open>
  C3. For every sequence of result events and every committed transcript at its start, the
  loop ends with the committed transcript and makes the transcript callbacks that the
  specification gives: an event with \<open>isPartial = true\<close> leaves the committed transcript
  unchanged and reports (committed so far, partial text); an event with \<open>isPartial = false\<close>
  appends its text and one trailing space and reports (updated committed, empty partial).
  From the empty transcript the events \<open>{isPartial: true, text: "hel"}\<close> and
  \<open>{isPartial: false, text: "hello"}\<close> make the callback receive \<open>("", "hel")\<close> and then
  \<open>("hello ", "")\<close>.
\<close>

theorem partial_and_final_results:
  "processTranscriptionResults committed (map (\<lambda>e. Yielded (spec_event e)) es)
     = (spec_committed committed es, map (\<lambda>r. OnTranscript (fst r) (snd r)) (spec_reports committed es))
   \<and> handle_event committed (spec_event (True, text)) = (committed, [OnTranscript committed text])
   \<and> handle_event committed (spec_event (False, text))
       = (committed @ text @ '' '', [OnTranscript (committed @ text @ '' '') []])
   \<and> processTranscriptionResults [] [Yielded (spec_event (True, ''hel'')), Yielded (spec_event (False, ''hello''))]
       = (''hello '', [OnTranscript [] ''hel'', OnTranscript ''hello '' []])"
proof -
  have seq: "processTranscriptionResults [] (map (\<lambda>e. Yielded (spec_event e)) [(True, ''hel''), (False, ''hello'')])
      = (''hello '', [OnTranscript [] ''hel'', OnTranscript ''hello '' []])"
    unfolding process_spec_events by simp
  have one: "handle_event committed (spec_event (True, text)) = (committed, [OnTranscript committed text])"
    "handle_event committed (spec_event (False, text))
       = (committed @ text @ '' '', [OnTranscript (committed @ text @ '' '') []])"
    by (simp_all add: handle_event_def spec_event_def first_transcript_def)
  from seq one process_spec_events [of committed es] show ?thesis by simp
qed

theorem partial_and_final_results_witness:
  "processTranscriptionResults ''hi '' [Yielded (spec_event (True, ''the'')),
       Yielded (spec_event (False, ''there'')), Yielded (spec_event (True, ''you''))]
     = (''hi there '', [OnTranscript ''hi '' ''the'', OnTranscript ''hi there '' [],
                        OnTranscript ''hi there '' ''you''])"
  using partial_and_final_results
          [where committed = "''hi ''" and es = "[(True, ''the''), (False, ''there''), (True, ''you'')]",
           THEN conjunct1]
  by simp

section \<open>Properties of the session controller\<close>

lemma persist_usage_form: "persist_usage now w = w\<lparr>localStorage := usage_after now w\<rparr>"
  by (simp add: usage_after_def persist_usage_def split: option.splits)

lemma close_customStream_form:
  "close_customStream w = w\<lparr>customStream := None,
      trace := trace w @ (case customStream w of None \<Rightarrow> [] | Some s \<Rightarrow> delivered (snd (close s)))\<rparr>"
  by (rule world.equality) (simp_all add: close_customStream_def split: option.splits)

lemma release_handles_form:
  "release_handles w = w\<lparr>processorNode := None, sourceNode := None, audioContext := None,
      stream := None, transcribeClient := None,
      trace := trace w
        @ (case processorNode w of None \<Rightarrow> [] | Some h \<Rightarrow> [ExternalCall ProcessorDisconnect])
        @ (case sourceNode w of None \<Rightarrow> [] | Some h \<Rightarrow> [ExternalCall SourceDisconnect])
        @ (case audioContext w of None \<Rightarrow> [] | Some h \<Rightarrow> [ExternalCall AudioContextClose])
        @ (case stream w of None \<Rightarrow> [] | Some h \<Rightarrow> [ExternalCall TracksStop])
        @ (case transcribeClient w of None \<Rightarrow> [] | Some h \<Rightarrow> [ExternalCall ClientDestroy])\<rparr>"
  by (rule world.equality) (simp_all add: release_handles_def Let_def split: option.splits)

lemma clear_timers_form:
  "clear_timers w = w\<lparr>silenceTimeout := None, maxSilenceTimeout := None, countdownInterval := None,
      timers := without_timers [silenceTimeout w, maxSilenceTimeout w, countdownInterval w] (timers w)\<rparr>"
  by (rule world.equality)
     (auto simp: clear_timers_def clearTimeout_def clearInterval_def Let_def without_timers_def
           split: option.splits intro: filter_cong)

lemma stop_form:
  "stop now w =
     w\<lparr>isListening := False, isActivelySpeaking := False, silenceCountdown := None,
       audioContext := None, maxSilenceTimeout := None, countdownInterval := None,
       sourceNode := None, processorNode := None, transcribeClient := None, stream := None,
       silenceTimeout := None, activeStreaming := False, customStream := None,
       timers := without_timers [silenceTimeout w, maxSilenceTimeout w, countdownInterval w] (timers w),
       localStorage := usage_after now w,
       trace := trace w @ stop_effects w @ [OnStateChange False False None]\<rparr>"
  unfolding stop_def Let_def
  by (rule world.equality)
     (simp_all add: clear_timers_form release_handles_form close_customStream_form
                    persist_usage_form stop_effects_def)

lemma usage_after_stopped:
  "usage_after now' (stop now w) = localStorage (persist_usage now' (w\<lparr>localStorage := usage_after now w\<rparr>))"
  by (simp add: stop_form usage_after_def persist_usage_def split: option.splits)

lemma stop_stop:
  "stop now' (stop now w)
     = (stop now w)\<lparr>localStorage := usage_after now' (stop now w),
                     trace := trace (stop now w) @ [OnStateChange False False None]\<rparr>"
  by (rule world.equality)
     (simp_all add: stop_form [of now' "stop now w"] without_timers_def stop_effects_def,
      simp_all add: stop_form)

lemma speech_ends_simps:
  "speech_ends [] = 0"
  "speech_ends (e # es) = (if e = OnSpeechEnd then 1 else 0) + speech_ends es"
  "speech_ends (xs @ ys) = speech_ends xs + speech_ends ys"
  "speech_ends (delivered rs) = 0"
  "speech_ends (map ProviderInvoked hs) = 0"
  by (simp_all add: speech_ends_def delivered_def filter_empty_conv)

lemma resetSilenceTimeout_form:
  "resetSilenceTimeout w =
     w\<lparr>silenceTimeout := Some (Suc (lastTimerId w)),
       maxSilenceTimeout := None, countdownInterval := None,
       silenceCountdown := (if countdownInterval w = None then silenceCountdown w else None),
       lastTimerId := Suc (lastTimerId w),
       timers := without_timers [maxSilenceTimeout w, countdownInterval w]
                   (without_timers [silenceTimeout w] (timers w)
                    @ [(Suc (lastTimerId w), HandleSilence, silenceDuration (config w))])\<rparr>"
  by (rule world.equality)
     (auto simp: resetSilenceTimeout_def setTimeout_def clearTimeout_def clearInterval_def Let_def
                 without_timers_def
           split: option.splits intro: filter_cong)

lemma processAudioData_fields:
  "config (processAudioData f w) = config w"
  "isListening (processAudioData f w) = isListening w"
  "isActivelySpeaking (processAudioData f w) = isActivelySpeaking w"
  "activeStreaming (processAudioData f w) = activeStreaming w"
  "silenceTimeout (processAudioData f w) = silenceTimeout w"
  "maxSilenceTimeout (processAudioData f w) = maxSilenceTimeout w"
  "countdownInterval (processAudioData f w) = countdownInterval w"
  "lastTimerId (processAudioData f w) = lastTimerId w"
  "timers (processAudioData f w) = timers w"
  "speech_ends (trace (processAudioData f w)) = speech_ends (trace w)"
  by (simp_all add: processAudioData_def speech_ends_simps split: option.splits)

lemma onaudioprocess_silent:
  "\<not> detectVoiceActivity fl (vadThreshold (config w)) g \<Longrightarrow>
   onaudioprocess fl g w = (if customStream w \<noteq> None then processAudioData g w else w)"
  by (simp add: onaudioprocess_def Let_def)

lemma onaudioprocess_speech:
  assumes "detectVoiceActivity fl (vadThreshold (config w)) f"
  shows "config (onaudioprocess fl f w) = config w"
    and "isListening (onaudioprocess fl f w) = isListening w"
    and "activeStreaming (onaudioprocess fl f w)"
    and "silenceTimeout (onaudioprocess fl f w) = Some (Suc (lastTimerId w))"
    and "maxSilenceTimeout (onaudioprocess fl f w) = None"
    and "countdownInterval (onaudioprocess fl f w) = None"
    and "lastTimerId (onaudioprocess fl f w) = Suc (lastTimerId w)"
    and "timers (onaudioprocess fl f w)
           = without_timers [maxSilenceTimeout w, countdownInterval w]
               (without_timers [silenceTimeout w] (timers w)
                @ [(Suc (lastTimerId w), HandleSilence, silenceDuration (config w))])"
    and "speech_ends (trace (onaudioprocess fl f w)) = speech_ends (trace w)"
  using assms
  by (simp_all add: onaudioprocess_def Let_def processAudioData_fields resetSilenceTimeout_form
                    speech_ends_simps)

lemma handleSilence_idle: "\<not> activeStreaming w \<Longrightarrow> handleSilence now w = w"
  by (simp add: handleSilence_def)

lemma handleSilence_armed:
  "activeStreaming w \<Longrightarrow> maxSilenceTimeout w = None \<Longrightarrow>
   handleSilence now w =
     w\<lparr>activeStreaming := False, isActivelySpeaking := False,
       maxSilenceTimeout := Some (Suc (lastTimerId w)),
       countdownInterval := Some (Suc (Suc (lastTimerId w))),
       lastTimerId := Suc (Suc (lastTimerId w)),
       timers := timers w @ [(Suc (lastTimerId w), MaxSilenceReached, maxSilenceDuration (config w)),
                             (Suc (Suc (lastTimerId w)), CountdownTick now, 1000)],
       trace := trace w @ [OnSpeechEnd, OnStateChange (isListening w) False None]\<rparr>"
  by (rule world.equality)
     (simp_all add: handleSilence_def Let_def setTimeout_def setInterval_def)

lemma handleSilence_kept:
  "activeStreaming w \<Longrightarrow> maxSilenceTimeout w = Some m \<Longrightarrow>
   handleSilence now w =
     w\<lparr>activeStreaming := False, isActivelySpeaking := False,
       trace := trace w @ [OnSpeechEnd, OnStateChange (isListening w) False None]\<rparr>"
  by (simp add: handleSilence_def Let_def)

lemma countdownTick_fields:
  "config (countdownTick started now w) = config w"
  "activeStreaming (countdownTick started now w) = activeStreaming w"
  "lastTimerId (countdownTick started now w) = lastTimerId w"
  "silenceTimeout (countdownTick started now w) = silenceTimeout w"
  "maxSilenceTimeout (countdownTick started now w) = maxSilenceTimeout w"
  "speech_ends (trace (countdownTick started now w)) = speech_ends (trace w)"
  by (simp_all add: countdownTick_def Let_def clearInterval_def clearTimeout_def speech_ends_simps
               split: option.splits)

lemma countdownTick_timers:
  "timers (countdownTick started now w) = timers w
   \<or> (\<exists>c. countdownInterval w = Some c \<and> countdownInterval (countdownTick started now w) = None
          \<and> timers (countdownTick started now w) = without_timers [Some c] (timers w))"
  "countdownInterval (countdownTick started now w) = countdownInterval w
   \<or> countdownInterval (countdownTick started now w) = None"
  by (auto simp: countdownTick_def Let_def clearInterval_def clearTimeout_def without_timers_def
           split: option.splits intro: filter_cong)

lemma start_try_fields:
  "config (snd (start_try fetch env w)) = config w"
  "activeStreaming (snd (start_try fetch env w)) = activeStreaming w"
  "lastTimerId (snd (start_try fetch env w)) = lastTimerId w"
  "timers (snd (start_try fetch env w)) = timers w"
  "silenceTimeout (snd (start_try fetch env w)) = silenceTimeout w"
  "maxSilenceTimeout (snd (start_try fetch env w)) = maxSilenceTimeout w"
  "countdownInterval (snd (start_try fetch env w)) = countdownInterval w"
  "speech_ends (trace (snd (start_try fetch env w))) = speech_ends (trace w)"
  by (simp_all add: start_try_def Let_def speech_ends_simps split: sum.splits option.splits)

lemma list_all_without: "list_all P ts \<Longrightarrow> list_all P (without_timers hs ts)"
  by (simp add: without_timers_def list_all_iff)

lemma map_of_without:
  "map_of (without_timers hs ts) k = (if Some k \<in> set hs then None else map_of ts k)"
  by (induction ts) (auto simp: without_timers_def)

lemma map_of_bounded: "list_all (\<lambda>t. fst t \<le> n) ts \<Longrightarrow> n < k \<Longrightarrow> map_of ts k = None"
  for n k :: nat
  by (induction ts) auto

lemma stop_fields:
  "config (stop now w) = config w"
  "\<not> activeStreaming (stop now w)"
  "\<not> isListening (stop now w)"
  "\<not> isActivelySpeaking (stop now w)"
  "lastTimerId (stop now w) = lastTimerId w"
  "silenceTimeout (stop now w) = None"
  "maxSilenceTimeout (stop now w) = None"
  "countdownInterval (stop now w) = None"
  "startTime (stop now w) = startTime w"
  "timers (stop now w)
     = without_timers [silenceTimeout w, maxSilenceTimeout w, countdownInterval w] (timers w)"
  by (simp_all add: stop_form)

lemma speech_ends_stop_effects: "speech_ends (stop_effects w) = 0"
  by (simp add: stop_effects_def speech_ends_simps split: option.splits)

lemma speech_ends_stop: "speech_ends (trace (stop now w)) = speech_ends (trace w)"
  by (simp add: stop_form speech_ends_simps speech_ends_stop_effects)

lemma report_and_stop_fields:
  "config (report_and_stop env msg w) = config w"
  "\<not> activeStreaming (report_and_stop env msg w)"
  "lastTimerId (report_and_stop env msg w) = lastTimerId w"
  "silenceTimeout (report_and_stop env msg w) = None"
  "maxSilenceTimeout (report_and_stop env msg w) = None"
  "countdownInterval (report_and_stop env msg w) = None"
  "timers (report_and_stop env msg w)
     = without_timers [silenceTimeout w, maxSilenceTimeout w, countdownInterval w] (timers w)"
  "speech_ends (trace (report_and_stop env msg w)) = speech_ends (trace w)"
  by (simp_all add: report_and_stop_def stop_fields speech_ends_stop speech_ends_simps)

text \<open>The five ways \<open>start()\<close> of the first copy can end.\<close>

lemma start_outcome:
  "start env w = (Inr True, w)
   \<or> (\<exists>msg. start env w = (Inr False, w\<lparr>trace := trace w @ [OnError msg]\<rparr>))
   \<or> start env w = (Inr True, snd (start_try getCredentials env w))
   \<or> (\<exists>e msg. start env w
          = (Inl e, report_and_stop env msg (snd (start_try getCredentials env w))))
   \<or> (\<exists>e. start env w = (Inl e, snd (start_try getCredentials env w)))"
proof (cases "isListening w")
  case True
  then show ?thesis by (simp add: start_def)
next
  case idle: False
  show ?thesis
  proof (cases "browserSupported w")
    case False
    with idle have "\<exists>msg. start env w = (Inr False, w\<lparr>trace := trace w @ [OnError msg]\<rparr>)"
      by (simp add: start_def) (rule exI, rule refl)
    then show ?thesis by blast
  next
    case True
    obtain r w' where t: "start_try getCredentials env w = (r, w')"
      by (cases "start_try getCredentials env w")
    show ?thesis
    proof (cases r)
      case None
      with t idle True show ?thesis by (simp add: start_def)
    next
      case (Some e)
      show ?thesis
      proof (cases e)
        case (JsError name message)
        with t idle True Some
        have "start env w
                = (Inl e, report_and_stop env
                            (if message = [] then ''Failed to start transcription'' else message)
                            (snd (start_try getCredentials env w)))"
          by (simp add: start_def start_catch_def)
        then show ?thesis by blast
      next
        case ThrownNull
        with t idle True Some show ?thesis by (simp add: start_def start_catch_def)
      next
        case ThrownUndefined
        with t idle True Some show ?thesis by (simp add: start_def start_catch_def)
      qed
    qed
  qed
qed

lemma start_fields:
  "config (snd (start env w)) = config w"
  "lastTimerId (snd (start env w)) = lastTimerId w"
  "speech_ends (trace (snd (start env w))) = speech_ends (trace w)"
  "\<not> activeStreaming w \<Longrightarrow> \<not> activeStreaming (snd (start env w))"
  using start_outcome [of env w]
  by (auto simp: start_try_fields report_and_stop_fields speech_ends_simps)

text \<open>A \<open>start()\<close> that does not raise leaves the timers and the streaming flag alone.\<close>

lemma start_returns_fields:
  assumes "\<not> isl (fst (start env w))"
  shows "timers (snd (start env w)) = timers w"
    and "silenceTimeout (snd (start env w)) = silenceTimeout w"
    and "maxSilenceTimeout (snd (start env w)) = maxSilenceTimeout w"
    and "countdownInterval (snd (start env w)) = countdownInterval w"
    and "activeStreaming (snd (start env w)) = activeStreaming w"
  using start_outcome [of env w] assms
  by (auto simp: start_try_fields)

lemma fire_cases:
  "map_of (timers w) tid = None \<Longrightarrow> fire tid now w = w"
  "map_of (timers w) tid = Some (HandleSilence, d) \<Longrightarrow>
     fire tid now w = handleSilence now (clearTimeout tid w)"
  "map_of (timers w) tid = Some (MaxSilenceReached, d) \<Longrightarrow>
     fire tid now w = stop now (clearTimeout tid w)"
  "map_of (timers w) tid = Some (CountdownTick started, d) \<Longrightarrow>
     fire tid now w = countdownTick started now w"
  by (simp_all add: fire_def)

lemma clearTimeout_form: "clearTimeout tid w = w\<lparr>timers := without_timers [Some tid] (timers w)\<rparr>"
  by (simp add: clearTimeout_def without_timers_def)

lemma config_step: "config (session_step fl ev w) = config w"
proof (cases ev)
  case (AudioFrame f)
  then show ?thesis
    by (cases "detectVoiceActivity fl (vadThreshold (config w)) f")
       (simp_all add: onaudioprocess_speech onaudioprocess_silent processAudioData_fields)
next
  case (TimerFires tid now)
  show ?thesis
  proof (cases "map_of (timers w) tid")
    case None
    then show ?thesis by (simp add: TimerFires fire_cases)
  next
    case (Some entry)
    obtain cb d where e: "entry = (cb, d)" by (cases entry)
    show ?thesis
      using Some unfolding e TimerFires
      by (cases cb)
         (simp_all add: fire_cases stop_fields countdownTick_fields clearTimeout_form
                        handleSilence_def Let_def setTimeout_def setInterval_def)
  qed
next
  case (StopCalled now)
  then show ?thesis by (simp add: stop_fields)
next
  case (StartCalled env)
  then show ?thesis by (simp add: start_fields)
qed

lemma config_run: "config (run_session fl evs w) = config w"
  unfolding run_session_def
  by (induction evs arbitrary: w) (simp_all add: config_step)

lemma quiet_step:
  assumes "\<not> activeStreaming w" and "\<not> is_speech fl w ev"
  shows "\<not> activeStreaming (session_step fl ev w)"
    and "speech_ends (trace (session_step fl ev w)) = speech_ends (trace w)"
proof -
  have "\<not> activeStreaming (session_step fl ev w)
        \<and> speech_ends (trace (session_step fl ev w)) = speech_ends (trace w)"
  proof (cases ev)
    case (AudioFrame f)
    with assms show ?thesis
      by (simp add: is_speech_def onaudioprocess_silent processAudioData_fields)
  next
    case (TimerFires tid now)
    show ?thesis
    proof (cases "map_of (timers w) tid")
      case None
      with assms show ?thesis by (simp add: TimerFires fire_cases)
    next
      case (Some entry)
      obtain cb d where e: "entry = (cb, d)" by (cases entry)
      show ?thesis
        using Some assms unfolding e TimerFires
        by (cases cb)
           (simp_all add: fire_cases stop_fields speech_ends_stop countdownTick_fields
                          clearTimeout_form handleSilence_idle)
    qed
  next
    case (StopCalled now)
    then show ?thesis by (simp add: stop_fields speech_ends_stop)
  next
    case (StartCalled env)
    with assms show ?thesis by (simp add: start_fields)
  qed
  then show "\<not> activeStreaming (session_step fl ev w)"
    and "speech_ends (trace (session_step fl ev w)) = speech_ends (trace w)"
    by simp_all
qed

lemma quiet_run:
  "\<not> activeStreaming w \<Longrightarrow> list_all (\<lambda>ev. \<not> is_speech fl w ev) evs \<Longrightarrow>
   speech_ends (trace (run_session fl evs w)) = speech_ends (trace w)"
  unfolding run_session_def
proof (induction evs arbitrary: w)
  case Nil
  then show ?case by simp
next
  case (Cons ev evs)
  have same: "\<And>e. is_speech fl (session_step fl ev w) e = is_speech fl w e"
    by (simp add: is_speech_def config_step split: session_event.splits)
  from Cons.prems have q: "\<not> is_speech fl w ev" and rest: "list_all (\<lambda>e. \<not> is_speech fl w e) evs"
    by simp_all
  have a: "\<not> activeStreaming (session_step fl ev w)"
    by (rule quiet_step(1) [OF Cons.prems(1) q])
  have b: "speech_ends (trace (session_step fl ev w)) = speech_ends (trace w)"
    by (rule quiet_step(2) [OF Cons.prems(1) q])
  from Cons.IH [OF a] rest same b show ?case by simp
qed

lemma map_of_appended: "map_of xs k = None \<Longrightarrow> map_of (xs @ ys) k = map_of ys k"
  by (simp add: map_add_def)

lemma handle_bounded_simps:
  "handle_bounded n None"
  "handle_bounded n (Some i) = (i \<le> n)"
  by (simp_all add: handle_bounded_def)

lemma handle_bounded_mono: "handle_bounded n h \<Longrightarrow> n \<le> m \<Longrightarrow> handle_bounded m h"
  by (cases h) (simp_all add: handle_bounded_simps)

lemma list_all_bounded_mono:
  "list_all (\<lambda>t. fst t \<le> n) ts \<Longrightarrow> n \<le> m \<Longrightarrow> list_all (\<lambda>t. fst t \<le> m) ts"
  for n m :: nat
  by (induction ts) auto

lemma ids_bounded_new: "ids_bounded (new_client opts b ls)"
  by (simp add: ids_bounded_def new_client_def handle_bounded_simps)

lemma ids_bounded_clearTimeout: "ids_bounded w \<Longrightarrow> ids_bounded (clearTimeout tid w)"
  by (simp add: ids_bounded_def clearTimeout_form list_all_without)

lemma ids_bounded_stop: "ids_bounded w \<Longrightarrow> ids_bounded (stop now w)"
  by (simp add: ids_bounded_def stop_fields list_all_without handle_bounded_simps)

lemma ids_bounded_handleSilence: "ids_bounded w \<Longrightarrow> ids_bounded (handleSilence now w)"
proof (cases "activeStreaming w")
  case False
  assume "ids_bounded w"
  with False show ?thesis by (simp add: handleSilence_idle)
next
  case True
  assume b: "ids_bounded w"
  show ?thesis
  proof (cases "maxSilenceTimeout w")
    case None
    from b have "list_all (\<lambda>t. fst t \<le> Suc (Suc (lastTimerId w))) (timers w)"
      by (auto simp: ids_bounded_def intro: list_all_bounded_mono)
    moreover from b have "handle_bounded (Suc (Suc (lastTimerId w))) (silenceTimeout w)"
      by (auto simp: ids_bounded_def intro: handle_bounded_mono)
    ultimately show ?thesis
      by (simp add: handleSilence_armed [OF True None] ids_bounded_def handle_bounded_simps)
  next
    case (Some m)
    with b show ?thesis
      by (simp add: handleSilence_kept [OF True Some] ids_bounded_def)
  qed
qed

lemma ids_bounded_countdownTick: "ids_bounded w \<Longrightarrow> ids_bounded (countdownTick started now w)"
  using countdownTick_timers [of started now w]
  by (auto simp: ids_bounded_def countdownTick_fields list_all_without handle_bounded_simps)

lemma ids_bounded_onaudioprocess: "ids_bounded w \<Longrightarrow> ids_bounded (onaudioprocess fl f w)"
proof (cases "detectVoiceActivity fl (vadThreshold (config w)) f")
  case False
  assume "ids_bounded w"
  then show ?thesis
    by (simp add: onaudioprocess_silent [OF False] ids_bounded_def processAudioData_fields)
next
  case True
  assume b: "ids_bounded w"
  then have "list_all (\<lambda>t. fst t \<le> Suc (lastTimerId w)) (timers w)"
    by (auto simp: ids_bounded_def intro: list_all_bounded_mono)
  then show ?thesis
    by (simp add: ids_bounded_def onaudioprocess_speech [OF True] list_all_without
                  handle_bounded_simps)
qed

lemma ids_bounded_start: "ids_bounded w \<Longrightarrow> ids_bounded (snd (start env w))"
  using start_outcome [of env w]
  by (auto simp: ids_bounded_def start_try_fields report_and_stop_fields list_all_without
                 handle_bounded_simps)

lemma ids_bounded_fire: "ids_bounded w \<Longrightarrow> ids_bounded (fire tid now w)"
proof (cases "map_of (timers w) tid")
  case None
  assume "ids_bounded w"
  with None show ?thesis by (simp add: fire_cases)
next
  case (Some entry)
  assume b: "ids_bounded w"
  obtain cb d where e: "entry = (cb, d)" by (cases entry)
  show ?thesis
    using Some b unfolding e
    by (cases cb)
       (simp_all add: fire_cases ids_bounded_handleSilence ids_bounded_clearTimeout
                      ids_bounded_stop ids_bounded_countdownTick)
qed

lemma ids_bounded_step: "ids_bounded w \<Longrightarrow> ids_bounded (session_step fl ev w)"
  by (cases ev)
     (simp_all add: ids_bounded_onaudioprocess ids_bounded_fire ids_bounded_stop ids_bounded_start)

lemma ids_bounded_run: "ids_bounded w \<Longrightarrow> ids_bounded (run_session fl evs w)"
  unfolding run_session_def
  by (induction evs arbitrary: w) (simp_all add: ids_bounded_step)

lemma run_session_append: "run_session fl (xs @ ys) w = run_session fl ys (run_session fl xs w)"
  by (simp add: run_session_def)

lemma run_session_Cons: "run_session fl (ev # evs) w = run_session fl evs (session_step fl ev w)"
  by (simp add: run_session_def)

lemma fresh_client_fields:
  "\<not> isListening (new_client default_options full_browser storage_A)"
  "browserSupported (new_client default_options full_browser storage_A)"
  by (simp_all add: new_client_def full_browser_def checkBrowserCompatibility_def)

lemma good_fetch:
  "getCredentials (Some (\<lambda>m. Yields credentials_B)) 60000 storage_A = (Inr credentials_A, storage_A, [])"
  by (rule getCredentials_hit)
     (simp add: cached_def storage_A_def credentials_A_def not_expired_def)

lemma listening_session_fields:
  "isListening listening_session"
  "startTime listening_session = Some 60000"
  "localStorage listening_session = storage_A"
  "config listening_session = make_config default_options"
  "customStream listening_session = Some new_stream"
  by (simp_all add: listening_session_def start_def start_try_def Let_def
                    fresh_client_fields good_env_def new_client_def make_config_def
                    default_options_def good_fetch full_browser_def checkBrowserCompatibility_def)


subsection \<open>Failures of start()\<close>

lemma torn_down_stop: "torn_down (stop now w)"
  by (simp add: torn_down_def stop_form)

text \<open>
  What the roll-back does: it reports the error, releases every handle the world holds
  at that point, in the order of \<open>stop()\<close>, clears the timers, resets the flags and ends
  with the final state update. It persists no usage, since the start time is reset first.
\<close>

lemma report_and_stop_result:
  "torn_down (report_and_stop env msg w)"
  "startTime (report_and_stop env msg w) = None"
  "trace (report_and_stop env msg w)
     = trace w @ [OnError msg] @ stop_effects w @ [OnStateChange False False None]"
  "localStorage (report_and_stop env msg w) = localStorage w"
proof -
  show "torn_down (report_and_stop env msg w)"
    unfolding report_and_stop_def by (rule torn_down_stop)
qed (simp_all add: report_and_stop_def stop_form stop_effects_def usage_after_def
                   persist_usage_def)

lemma start_try_media_fails:
  "getUserMedia env = Inl e \<Longrightarrow> start_try fetch env w = (Some e, w)"
  by (simp add: start_try_def)

lemma start_try_fetch_fails:
  assumes "audio_graph_ok env"
      and "fst (fetch (credentialsProvider (config w)) (credentialsClock env) (localStorage w)) = Inl e"
  shows "fst (start_try fetch env w) = Some e"
    and "stop_effects (snd (start_try fetch env w))
           = (case customStream w of None \<Rightarrow> [] | Some s \<Rightarrow> delivered (snd (close s)))
             @ [ExternalCall ProcessorDisconnect, ExternalCall SourceDisconnect,
                ExternalCall AudioContextClose, ExternalCall TracksStop]
             @ (case transcribeClient w of None \<Rightarrow> [] | Some h \<Rightarrow> [ExternalCall ClientDestroy])"
  using assms
  by (auto simp: start_try_def audio_graph_ok_def stop_effects_def Let_def
           split: sum.splits option.splits)

lemma start_try_send_fails:
  assumes "audio_graph_ok env"
      and "\<not> isl (fst (fetch (credentialsProvider (config w)) (credentialsClock env) (localStorage w)))"
      and "send env = Inl e"
  shows "fst (start_try fetch env w) = Some e"
    and "stop_effects (snd (start_try fetch env w))
           = [ExternalCall ProcessorDisconnect, ExternalCall SourceDisconnect,
              ExternalCall AudioContextClose, ExternalCall TracksStop, ExternalCall ClientDestroy]"
  using assms
  by (auto simp: start_try_def audio_graph_ok_def stop_effects_def Let_def new_stream_def
                 close_def delivered_def
           split: sum.splits option.splits)

lemma start_try_keeps_idle:
  "fst (start_try fetch env w) = Some e \<Longrightarrow>
   isListening (snd (start_try fetch env w)) = isListening w"
  by (auto simp: start_try_def Let_def split: sum.splits option.splits)

text \<open>
  The second copy rolls back on every value thrown: the caller receives that value, and
  the state is the roll-back of the state in which it was thrown.
\<close>

lemma start_v2_rolls_back:
  assumes "fst (start_v2 env w) = Inl e"
  shows "fst (start_try AWSCredentials_getCredentials env w) = Some e"
    and "\<exists>msg. snd (start_v2 env w)
           = report_and_stop env msg (snd (start_try AWSCredentials_getCredentials env w))"
    and "torn_down (snd (start_v2 env w))"
proof -
  obtain r w' where t: "start_try AWSCredentials_getCredentials env w = (r, w')"
    by (cases "start_try AWSCredentials_getCredentials env w")
  from assms t have r: "r = Some e"
    by (cases r) (auto simp: start_v2_def start_catch_v2_def split: if_splits)
  from assms t r have s: "\<exists>msg. snd (start_v2 env w) = report_and_stop env msg w'"
    by (auto simp: start_v2_def start_catch_v2_def split: if_splits)
  from t r show "fst (start_try AWSCredentials_getCredentials env w) = Some e" by simp
  from t s show "\<exists>msg. snd (start_v2 env w)
           = report_and_stop env msg (snd (start_try AWSCredentials_getCredentials env w))"
    by simp
  from s show "torn_down (snd (start_v2 env w))"
    by (auto simp: report_and_stop_result)
qed

text \<open>
  The first copy rolls back when an \<open>Error\<close> object is thrown, and leaves the state as
  it is, with every handle acquired so far, when \<open>null\<close> or \<open>undefined\<close> is thrown.
\<close>

lemma start_rolls_back:
  assumes "\<not> isListening w" and "browserSupported w"
      and "fst (start_try getCredentials env w) = Some (JsError name message)"
  shows "start env w
           = (Inl (JsError name message),
              report_and_stop env
                (if message = [] then ''Failed to start transcription'' else message)
                (snd (start_try getCredentials env w)))"
  using assms by (cases "start_try getCredentials env w") (simp add: start_def start_catch_def)

lemma start_skips_roll_back:
  assumes "\<not> isListening w" and "browserSupported w"
  shows "fst (start_try getCredentials env w) = Some ThrownNull \<Longrightarrow>
         start env w = (Inl (reading_message_of ''null''), snd (start_try getCredentials env w))"
    and "fst (start_try getCredentials env w) = Some ThrownUndefined \<Longrightarrow>
         start env w = (Inl (reading_message_of ''undefined''), snd (start_try getCredentials env w))"
  using assms
  by (cases "start_try getCredentials env w"; simp add: start_def start_catch_def)+

text \<open>In both copies every outcome other than success leaves \<open>isListening\<close> false.\<close>

lemma start_not_listening:
  "fst (start env w) \<noteq> Inr True \<Longrightarrow> \<not> isListening (snd (start env w))"
proof -
  assume n: "fst (start env w) \<noteq> Inr True"
  obtain r w' where t: "start_try getCredentials env w = (r, w')"
    by (cases "start_try getCredentials env w")
  show ?thesis
  proof (cases r)
    case None
    with n t show ?thesis by (auto simp: start_def split: if_splits)
  next
    case (Some e)
    with t have "isListening w' = isListening w"
      using start_try_keeps_idle [of getCredentials env w e] by simp
    moreover have "\<not> isListening (report_and_stop env msg w')" for msg
      using report_and_stop_result(1) [of env msg w'] by (simp add: torn_down_def)
    ultimately show ?thesis
      using n t Some
      by (cases e) (auto simp: start_def start_catch_def split: if_splits)
  qed
qed

lemma undefined_rejection:
  "fst (start_try getCredentials good_env unreasoned_client) = Some ThrownUndefined"
  "stream (snd (start_try getCredentials good_env unreasoned_client)) = Some 1"
  "audioContext (snd (start_try getCredentials good_env unreasoned_client)) = Some 2"
  "sourceNode (snd (start_try getCredentials good_env unreasoned_client)) = Some 3"
  "processorNode (snd (start_try getCredentials good_env unreasoned_client)) = Some 4"
  "trace (snd (start_try getCredentials good_env unreasoned_client)) = [ProviderInvoked 0]"
  "fst (start_try AWSCredentials_getCredentials good_env unreasoned_client) = Some ThrownUndefined"
  "trace (snd (start_try AWSCredentials_getCredentials good_env unreasoned_client))
     = [ProviderInvoked 0]"
  "stop_effects (snd (start_try AWSCredentials_getCredentials good_env unreasoned_client))
     = [ExternalCall ProcessorDisconnect, ExternalCall SourceDisconnect,
        ExternalCall AudioContextClose, ExternalCall TracksStop]"
  by (simp_all add: start_try_def good_env_def unreasoned_client_def new_client_def
                    make_config_def default_options_def getCredentials_def
                    AWSCredentials_getCredentials_def loadStoredCredentials_def
                    AWSCredentials_loadStoredCredentials_def fetch_fresh_def getMinutesUsed_def
                    stop_effects_def Let_def)

lemma error_rejection:
  "fst (start_try getCredentials good_env refused_client) = Some (JsError ''Error'' ''denied'')"
  "trace (snd (start_try getCredentials good_env refused_client)) = [ProviderInvoked 0]"
  "stop_effects (snd (start_try getCredentials good_env refused_client))
     = [ExternalCall ProcessorDisconnect, ExternalCall SourceDisconnect,
        ExternalCall AudioContextClose, ExternalCall TracksStop]"
  by (simp_all add: start_try_def good_env_def refused_client_def new_client_def
                    make_config_def default_options_def getCredentials_def
                    loadStoredCredentials_def fetch_fresh_def getMinutesUsed_def
                    stop_effects_def Let_def)

lemma fresh_clients_idle:
  "\<not> isListening unreasoned_client" "browserSupported unreasoned_client"
  "audioContextClass unreasoned_client"
  "\<not> isListening refused_client" "browserSupported refused_client"
  by (simp_all add: unreasoned_client_def refused_client_def new_client_def full_browser_def
                    checkBrowserCompatibility_def)

text \<open>
  C2. A failure of \<open>start()\<close> with a value that is not an \<open>Error\<close> object. The provider
  rejects without a reason, so the credential fetch throws \<open>undefined\<close> after the media
  stream, the audio context and the two nodes were acquired. The \<open>catch\<close> block of
  \<open>src/aws-transcribe-client.ts\<close> throws a \<open>TypeError\<close> on reading \<open>error.message\<close>: the
  caller receives that error, no error callback and no \<open>stop()\<close> is run, and the four
  handles stay acquired with nothing released. \<open>isListening\<close> is false all the same.
  The same provider rejecting with an \<open>Error\<close> object is rolled back in full: the error is
  reported and re-raised, the four handles are released in the order of \<open>stop()\<close> and the
  final state update is emitted. The second copy of the class rolls back in full on the
  rejection without a reason too.
\<close>

theorem start_leaks_on_undefined_rejection:
  "fst (start good_env unreasoned_client) = Inl (reading_message_of ''undefined'')
   \<and> stream (snd (start good_env unreasoned_client)) = Some 1
   \<and> audioContext (snd (start good_env unreasoned_client)) = Some 2
   \<and> sourceNode (snd (start good_env unreasoned_client)) = Some 3
   \<and> processorNode (snd (start good_env unreasoned_client)) = Some 4
   \<and> trace (snd (start good_env unreasoned_client)) = [ProviderInvoked 0]
   \<and> \<not> torn_down (snd (start good_env unreasoned_client))
   \<and> \<not> isListening (snd (start good_env unreasoned_client))
   \<and> fst (start good_env refused_client) = Inl (JsError ''Error'' ''denied'')
   \<and> torn_down (snd (start good_env refused_client))
   \<and> trace (snd (start good_env refused_client))
       = [ProviderInvoked 0, OnError ''denied'', ExternalCall ProcessorDisconnect,
          ExternalCall SourceDisconnect, ExternalCall AudioContextClose, ExternalCall TracksStop,
          OnStateChange False False None]
   \<and> fst (start_v2 good_env unreasoned_client) = Inl ThrownUndefined
   \<and> torn_down (snd (start_v2 good_env unreasoned_client))
   \<and> trace (snd (start_v2 good_env unreasoned_client))
       = [ProviderInvoked 0, OnError ''undefined'', ExternalCall ProcessorDisconnect,
          ExternalCall SourceDisconnect, ExternalCall AudioContextClose, ExternalCall TracksStop,
          OnStateChange False False None]"
proof -
  have leak: "start good_env unreasoned_client
      = (Inl (reading_message_of ''undefined''), snd (start_try getCredentials good_env unreasoned_client))"
    by (rule start_skips_roll_back(2) [OF fresh_clients_idle(1,2) undefined_rejection(1)])
  have held: "\<not> torn_down (snd (start good_env unreasoned_client))"
    by (simp add: leak torn_down_def undefined_rejection)
  have idle: "\<not> isListening (snd (start good_env unreasoned_client))"
    by (rule start_not_listening) (simp add: leak)
  have rolled: "start good_env refused_client
      = (Inl (JsError ''Error'' ''denied''),
         report_and_stop good_env ''denied'' (snd (start_try getCredentials good_env refused_client)))"
    using start_rolls_back [OF fresh_clients_idle(4,5) error_rejection(1)] by simp
  obtain r w' where t: "start_try AWSCredentials_getCredentials good_env unreasoned_client = (r, w')"
    by (cases "start_try AWSCredentials_getCredentials good_env unreasoned_client")
  with undefined_rejection(7) have r: "r = Some ThrownUndefined" by simp
  have v2: "start_v2 good_env unreasoned_client
      = (Inl ThrownUndefined,
         report_and_stop good_env ''undefined''
           (snd (start_try AWSCredentials_getCredentials good_env unreasoned_client)))"
    using fresh_clients_idle(1,2,3) t r by (simp add: start_v2_def start_catch_v2_def)
  show ?thesis
    using held idle
    by (simp add: leak rolled v2 undefined_rejection error_rejection report_and_stop_result)
qed


subsection \<open>The silence timers\<close>

text \<open>
  Every pending timer is held by one of the three handle fields, and a countdown is only
  pending together with a long timer.
\<close>

lemma timers_tracked_new: "timers_tracked (new_client opts b ls)"
  by (simp add: timers_tracked_def new_client_def)

lemma tracked_cleared:
  "timers_tracked w \<Longrightarrow>
   without_timers [silenceTimeout w, maxSilenceTimeout w, countdownInterval w] (timers w) = []"
  by (auto simp: timers_tracked_def without_timers_def list_all_iff filter_empty_conv)

lemma timers_tracked_stop: "timers_tracked w \<Longrightarrow> timers_tracked (stop now w)"
  by (simp add: timers_tracked_def [of "stop now w"] stop_fields tracked_cleared)

lemma timers_tracked_clearTimeout: "timers_tracked w \<Longrightarrow> timers_tracked (clearTimeout tid w)"
  by (auto simp: timers_tracked_def clearTimeout_form without_timers_def list_all_iff)

lemma timers_tracked_handleSilence:
  assumes t: "timers_tracked w"
  shows "timers_tracked (handleSilence now w)"
proof (cases "activeStreaming w")
  case False
  with t show ?thesis by (simp add: handleSilence_idle)
next
  case True
  show ?thesis
  proof (cases "maxSilenceTimeout w")
    case None
    with t have c: "countdownInterval w = None"
      by (simp add: timers_tracked_def)
    from t have "list_all (\<lambda>t. Some (fst t) = silenceTimeout w) (timers w)"
      by (auto simp: timers_tracked_def None c list_all_iff)
    then show ?thesis
      by (auto simp: handleSilence_armed [OF True None] timers_tracked_def list_all_iff)
  next
    case (Some m)
    with t show ?thesis
      by (simp add: handleSilence_kept [OF True Some] timers_tracked_def)
  qed
qed

lemma countdownTick_cases:
  "(timers (countdownTick started now w) = timers w
      \<and> countdownInterval (countdownTick started now w) = countdownInterval w)
   \<or> (\<exists>c. countdownInterval w = Some c \<and> countdownInterval (countdownTick started now w) = None
          \<and> timers (countdownTick started now w) = without_timers [Some c] (timers w))"
  by (auto simp: countdownTick_def Let_def clearInterval_def clearTimeout_def without_timers_def
           split: option.splits intro: filter_cong)

lemma timers_tracked_countdownTick:
  "timers_tracked w \<Longrightarrow> timers_tracked (countdownTick started now w)"
  using countdownTick_cases [of started now w]
  by (auto simp: timers_tracked_def countdownTick_fields without_timers_def list_all_iff)

lemma timers_tracked_onaudioprocess:
  assumes t: "timers_tracked w"
  shows "timers_tracked (onaudioprocess fl f w)"
proof (cases "detectVoiceActivity fl (vadThreshold (config w)) f")
  case False
  with t show ?thesis
    by (simp add: onaudioprocess_silent [OF False] timers_tracked_def processAudioData_fields)
next
  case True
  from t show ?thesis
    by (auto simp: timers_tracked_def onaudioprocess_speech [OF True] without_timers_def
                   list_all_iff)
qed

lemma timers_tracked_start:
  assumes t: "timers_tracked w"
  shows "timers_tracked (snd (start env w))"
proof -
  let ?w = "snd (start_try getCredentials env w)"
  have kept: "timers_tracked ?w"
    using t by (simp add: timers_tracked_def start_try_fields)
  have "timers_tracked (report_and_stop env msg ?w)" for msg
    using tracked_cleared [OF kept]
    by (simp add: timers_tracked_def [of "report_and_stop env msg ?w"] report_and_stop_fields)
  moreover have "timers_tracked (w\<lparr>trace := trace w @ [OnError msg]\<rparr>)" for msg
    using t by (simp add: timers_tracked_def)
  ultimately show ?thesis
    using start_outcome [of env w] t kept by auto
qed

lemma timers_tracked_fire: "timers_tracked w \<Longrightarrow> timers_tracked (fire tid now w)"
proof (cases "map_of (timers w) tid")
  case None
  assume "timers_tracked w"
  with None show ?thesis by (simp add: fire_cases)
next
  case (Some entry)
  assume t: "timers_tracked w"
  obtain cb d where e: "entry = (cb, d)" by (cases entry)
  show ?thesis
    using Some t unfolding e
    by (cases cb)
       (simp_all add: fire_cases timers_tracked_handleSilence timers_tracked_clearTimeout
                      timers_tracked_stop timers_tracked_countdownTick)
qed

lemma timers_tracked_step: "timers_tracked w \<Longrightarrow> timers_tracked (session_step fl ev w)"
  by (cases ev)
     (simp_all add: timers_tracked_onaudioprocess timers_tracked_fire timers_tracked_stop
                    timers_tracked_start)

lemma timers_tracked_run: "timers_tracked w \<Longrightarrow> timers_tracked (run_session fl evs w)"
  unfolding run_session_def
  by (induction evs arbitrary: w) (simp_all add: timers_tracked_step)

text \<open>A speech frame leaves exactly one timer pending: the short timer it arms.\<close>

lemma only_short_timer:
  assumes b: "ids_bounded w"
      and t: "timers_tracked w"
      and voice: "detectVoiceActivity fl (vadThreshold (config w)) f"
  shows "timers (onaudioprocess fl f w)
           = [(Suc (lastTimerId w), HandleSilence, silenceDuration (config w))]"
proof -
  from b have m: "maxSilenceTimeout w \<noteq> Some (Suc (lastTimerId w))"
    and c: "countdownInterval w \<noteq> Some (Suc (lastTimerId w))"
    by (auto simp: ids_bounded_def handle_bounded_simps)
  from t have old: "without_timers [maxSilenceTimeout w, countdownInterval w]
                      (without_timers [silenceTimeout w] (timers w)) = []"
    by (auto simp: timers_tracked_def without_timers_def list_all_iff filter_empty_conv)
  have "without_timers [maxSilenceTimeout w, countdownInterval w]
          (without_timers [silenceTimeout w] (timers w)
           @ [(Suc (lastTimerId w), HandleSilence, silenceDuration (config w))])
        = without_timers [maxSilenceTimeout w, countdownInterval w]
            (without_timers [silenceTimeout w] (timers w))
          @ without_timers [maxSilenceTimeout w, countdownInterval w]
              [(Suc (lastTimerId w), HandleSilence, silenceDuration (config w))]"
    by (simp add: without_timers_def)
  also have "\<dots> = [(Suc (lastTimerId w), HandleSilence, silenceDuration (config w))]"
    unfolding old using m c by (simp add: without_timers_def)
  finally show ?thesis
    by (simp only: onaudioprocess_speech(8) [OF voice])
qed

lemma pending_after_speech:
  assumes b: "ids_bounded w"
      and t: "timers_tracked w"
      and voice: "detectVoiceActivity fl (vadThreshold (config w)) f"
  shows "short_timer_pending (Suc (lastTimerId w)) (onaudioprocess fl f w)"
  unfolding short_timer_pending_def
  using ids_bounded_onaudioprocess [OF b, of fl f] only_short_timer [OF b t voice]
  by (simp add: onaudioprocess_speech [OF voice])

text \<open>
  An event that leaves the short timer alone keeps it pending, and fires no \<open>onSpeechEnd\<close>.
\<close>

lemma pending_step:
  assumes p: "short_timer_pending tid w"
      and l: "leaves_short_timer fl w ev"
  shows "short_timer_pending tid (session_step fl ev w)"
    and "speech_ends (trace (session_step fl ev w)) = speech_ends (trace w)"
proof -
  have "short_timer_pending tid (session_step fl ev w)
        \<and> speech_ends (trace (session_step fl ev w)) = speech_ends (trace w)"
  proof (cases ev)
    case (AudioFrame g)
    with l have q: "\<not> detectVoiceActivity fl (vadThreshold (config w)) g"
      by (simp add: leaves_short_timer_def)
    from p have "ids_bounded (onaudioprocess fl g w)"
      by (simp add: short_timer_pending_def ids_bounded_onaudioprocess)
    with p show ?thesis
      by (simp add: AudioFrame short_timer_pending_def onaudioprocess_silent [OF q]
                    processAudioData_fields)
  next
    case (TimerFires i now)
    with l p have "i \<noteq> tid"
      by (auto simp: leaves_short_timer_def short_timer_pending_def)
    with p have "map_of (timers w) i = None"
      by (simp add: short_timer_pending_def)
    then have "fire i now w = w" by (rule fire_cases(1))
    with p show ?thesis by (simp add: TimerFires)
  next
    case (StopCalled now)
    with l show ?thesis by (simp add: leaves_short_timer_def)
  next
    case (StartCalled env)
    with l have r: "\<not> isl (fst (start env w))"
      by (simp add: leaves_short_timer_def)
    from p have "ids_bounded (snd (start env w))"
      by (simp add: short_timer_pending_def ids_bounded_start)
    with p show ?thesis
      by (simp add: StartCalled short_timer_pending_def start_returns_fields [OF r] start_fields)
  qed
  then show "short_timer_pending tid (session_step fl ev w)"
    and "speech_ends (trace (session_step fl ev w)) = speech_ends (trace w)"
    by simp_all
qed

lemma pending_window:
  assumes "short_timer_pending tid w" and "undisturbed fl evs w"
  shows "short_timer_pending tid (run_session fl evs w)
         \<and> speech_ends (trace (run_session fl evs w)) = speech_ends (trace w)"
  using assms
proof (induction evs arbitrary: w)
  case Nil
  then show ?case by (simp add: run_session_def)
next
  case (Cons ev evs)
  from Cons.prems have l: "leaves_short_timer fl w ev"
    and u: "undisturbed fl evs (session_step fl ev w)"
    by simp_all
  note one = pending_step [OF Cons.prems(1) l]
  from Cons.IH [OF one(1) u] show ?case
    by (simp add: run_session_Cons one(2))
qed

lemma short_timer_expiry:
  assumes b: "ids_bounded w"
      and act: "activeStreaming w"
      and idle: "maxSilenceTimeout w = None"
      and t: "map_of (timers w) tid = Some (HandleSilence, d)"
  shows "\<not> isActivelySpeaking (fire tid now w)"
    and "\<not> activeStreaming (fire tid now w)"
    and "config (fire tid now w) = config w"
    and "speech_ends (trace (fire tid now w)) = Suc (speech_ends (trace w))"
    and "map_of (timers (fire tid now w)) tid = None"
    and "maxSilenceTimeout (fire tid now w) = Some (Suc (lastTimerId w))"
    and "map_of (timers (fire tid now w)) (Suc (lastTimerId w))
           = Some (MaxSilenceReached, maxSilenceDuration (config w))"
    and "countdownInterval (fire tid now w) = Some (Suc (Suc (lastTimerId w)))"
    and "map_of (timers (fire tid now w)) (Suc (Suc (lastTimerId w))) = Some (CountdownTick now, 1000)"
proof -
  let ?c = "clearTimeout tid w"
  have f: "fire tid now w = handleSilence now ?c"
    by (rule fire_cases(2) [OF t])
  have act': "activeStreaming ?c" and idle': "maxSilenceTimeout ?c = None"
    using act idle by (simp_all add: clearTimeout_form)
  note form = handleSilence_armed [OF act' idle', of now]
  from b have ts: "list_all (\<lambda>t. fst t \<le> lastTimerId w) (timers w)"
    by (simp add: ids_bounded_def)
  from t have "tid \<in> fst ` set (timers w)"
    by (meson domI domIff map_of_eq_None_iff)
  with ts have small: "tid \<le> lastTimerId w"
    by (auto simp: list_all_iff)
  have rest: "list_all (\<lambda>t. fst t \<le> lastTimerId w) (without_timers [Some tid] (timers w))"
    by (rule list_all_without [OF ts])
  have gone: "map_of (without_timers [Some tid] (timers w)) tid = None"
    by (simp add: map_of_without)
  have n1: "map_of (without_timers [Some tid] (timers w)) (Suc (lastTimerId w)) = None"
    by (rule map_of_bounded [OF rest]) simp
  have n2: "map_of (without_timers [Some tid] (timers w)) (Suc (Suc (lastTimerId w))) = None"
    by (rule map_of_bounded [OF rest]) simp
  show "\<not> isActivelySpeaking (fire tid now w)"
    and "\<not> activeStreaming (fire tid now w)"
    and "config (fire tid now w) = config w"
    and "speech_ends (trace (fire tid now w)) = Suc (speech_ends (trace w))"
    and "maxSilenceTimeout (fire tid now w) = Some (Suc (lastTimerId w))"
    and "countdownInterval (fire tid now w) = Some (Suc (Suc (lastTimerId w)))"
    unfolding f form by (simp_all add: clearTimeout_form speech_ends_simps)
  show "map_of (timers (fire tid now w)) tid = None"
    unfolding f form using small
    by (simp add: clearTimeout_form map_of_appended [OF gone] del: map_of_append)
  show "map_of (timers (fire tid now w)) (Suc (lastTimerId w))
           = Some (MaxSilenceReached, maxSilenceDuration (config w))"
    unfolding f form
    by (simp add: clearTimeout_form map_of_appended [OF n1] del: map_of_append)
  show "map_of (timers (fire tid now w)) (Suc (Suc (lastTimerId w))) = Some (CountdownTick now, 1000)"
    unfolding f form
    by (simp add: clearTimeout_form map_of_appended [OF n2] del: map_of_append)
qed

lemma listening_session_reached:
  "listening_session
     = run_session exact [StartCalled good_env] (new_client default_options full_browser storage_A)"
  by (simp add: listening_session_def run_session_def)

lemma listening_session_timers:
  "ids_bounded listening_session"
  "timers_tracked listening_session"
  "lastTimerId listening_session = 0"
  "speech_ends (trace listening_session) = 0"
proof -
  show "ids_bounded listening_session"
    unfolding listening_session_def by (rule ids_bounded_start [OF ids_bounded_new])
  show "timers_tracked listening_session"
    unfolding listening_session_def by (rule timers_tracked_start [OF timers_tracked_new])
  show "lastTimerId listening_session = 0"
    by (simp add: listening_session_def start_fields new_client_def)
  show "speech_ends (trace listening_session) = 0"
    by (simp add: listening_session_def start_fields new_client_def speech_ends_simps)
qed

lemma default_threshold: "vadThreshold (config listening_session) = 2 / 100"
  by (simp add: listening_session_fields make_config_def default_options_def number_or_def
                VAD_THRESHOLD_def)

lemma loud_frame: "detectVoiceActivity exact (2 / 100) [1]"
  by (simp add: detectVoiceActivity_def frame_rms_def js_div_def
                reduce_squares_def exact_def)

lemma silent_frame: "\<not> detectVoiceActivity exact (2 / 100) [0]"
  by (simp add: detectVoiceActivity_def frame_rms_def js_div_def
                reduce_squares_def exact_def)

text \<open>
  C9 as stated fails when \<open>stop()\<close> is called within the window. On the listening
  session the frame \<open>[1]\<close> is speech and arms the short timer \<open>1\<close>. \<open>stop()\<close> is called
  500 ms later, within the window of \<open>silenceDuration\<close> = 1000 ms and with no further
  speech frame, and clears the timer. When \<open>silenceDuration\<close> has elapsed nothing fires:
  no \<open>onSpeechEnd\<close> has been emitted, and neither the long timer nor the countdown is
  armed.
\<close>

theorem stop_in_window_counterexample:
  "detectVoiceActivity exact (vadThreshold (config listening_session)) [1]
   \<and> silenceDuration (config listening_session) = 1000
   \<and> silenceTimeout (run_session exact [AudioFrame [1]] listening_session) = Some 1
   \<and> timers (run_session exact [AudioFrame [1]] listening_session) = [(1, HandleSilence, 1000)]
   \<and> timers (run_session exact [AudioFrame [1], StopCalled 60500] listening_session) = []
   \<and> speech_ends (trace
         (run_session exact [AudioFrame [1], StopCalled 60500, TimerFires 1 61000]
            listening_session)) = 0
   \<and> maxSilenceTimeout
         (run_session exact [AudioFrame [1], StopCalled 60500, TimerFires 1 61000]
            listening_session) = None
   \<and> countdownInterval
         (run_session exact [AudioFrame [1], StopCalled 60500, TimerFires 1 61000]
            listening_session) = None"
proof -
  define w1 where "w1 = onaudioprocess exact [1] listening_session"
  define w2 where "w2 = stop 60500 w1"
  have voice: "detectVoiceActivity exact (vadThreshold (config listening_session)) [1]"
    using loud_frame by (simp add: default_threshold)
  have d: "silenceDuration (config listening_session) = 1000"
    by (simp add: listening_session_fields make_config_def default_options_def number_or_def
                  SILENCE_DURATION_def)
  note sp = onaudioprocess_speech [OF voice, folded w1_def]
  have t1: "timers w1 = [(1, HandleSilence, 1000)]"
    unfolding w1_def
    using only_short_timer [OF listening_session_timers(1) listening_session_timers(2) voice]
    by (simp add: listening_session_timers d)
  have s1: "silenceTimeout w1 = Some 1"
    by (simp add: sp listening_session_timers)
  have t2: "timers w2 = []"
    by (simp add: w2_def stop_fields t1 s1 without_timers_def)
  have f: "fire 1 61000 w2 = w2"
    by (rule fire_cases(1)) (simp add: t2)
  have r1: "run_session exact [AudioFrame [1]] listening_session = w1"
    by (simp add: run_session_def w1_def)
  have r2: "run_session exact [AudioFrame [1], StopCalled 60500] listening_session = w2"
    by (simp add: run_session_def w1_def w2_def)
  have "run_session exact [AudioFrame [1], StopCalled 60500, TimerFires 1 61000]
          listening_session = fire 1 61000 w2"
    unfolding run_session_def w1_def w2_def by (simp only: foldl.simps session_step.simps)
  with f have r3: "run_session exact [AudioFrame [1], StopCalled 60500, TimerFires 1 61000]
                     listening_session = w2"
    by simp
  have e2: "speech_ends (trace w2) = 0"
    by (simp add: w2_def speech_ends_stop sp listening_session_timers)
  have h2: "maxSilenceTimeout w2 = None" "countdownInterval w2 = None"
    by (simp_all add: w2_def stop_fields)
  show ?thesis
    unfolding r1 r2 r3 using voice d s1 t1 t2 e2 h2 by simp
qed

text \<open>
  C9, as amended. In every state that a session reaches, let a speech-classified frame
  arrive, followed by a window of events that leave the short timer alone (frames that
  are not speech, stale timer firings, calls of \<open>start()\<close> that do not raise; no \<open>stop()\<close>
  and no failing \<open>start()\<close>), and let the short timer then expire. The speech frame arms
  one short timer with delay \<open>silenceDuration\<close>, which the window leaves pending and
  untouched and during which no \<open>onSpeechEnd\<close> fires. Its expiry makes
  \<open>isActivelySpeaking\<close> false, fires exactly one \<open>onSpeechEnd\<close>, removes the timer, so that
  it cannot fire again, and arms the long timer with delay \<open>maxSilenceDuration\<close> together
  with the one-second countdown. Whatever follows without a speech frame (silent frames,
  timers firing, \<open>stop()\<close>, \<open>start()\<close>) fires no second \<open>onSpeechEnd\<close>.
\<close>

theorem silence_timer_fires_once:
  assumes reach: "w = run_session fl history (new_client opts b ls)"
      and voice: "detectVoiceActivity fl (vadThreshold (config w)) f"
      and window: "undisturbed fl mid (onaudioprocess fl f w)"
      and later: "\<forall>ev \<in> set evs. \<not> is_speech fl w ev"
  shows "\<exists>tid m c.
           silenceTimeout (run_session fl (AudioFrame f # mid) w) = Some tid
         \<and> timers (run_session fl (AudioFrame f # mid) w)
             = [(tid, HandleSilence, silenceDuration (config w))]
         \<and> speech_ends (trace (run_session fl (AudioFrame f # mid) w))
             = speech_ends (trace w)
         \<and> \<not> isActivelySpeaking
               (run_session fl (AudioFrame f # mid @ [TimerFires tid now]) w)
         \<and> speech_ends (trace
               (run_session fl (AudioFrame f # mid @ [TimerFires tid now]) w))
             = Suc (speech_ends (trace w))
         \<and> map_of (timers
               (run_session fl (AudioFrame f # mid @ [TimerFires tid now]) w)) tid = None
         \<and> maxSilenceTimeout
               (run_session fl (AudioFrame f # mid @ [TimerFires tid now]) w) = Some m
         \<and> map_of (timers
               (run_session fl (AudioFrame f # mid @ [TimerFires tid now]) w)) m
             = Some (MaxSilenceReached, maxSilenceDuration (config w))
         \<and> countdownInterval
               (run_session fl (AudioFrame f # mid @ [TimerFires tid now]) w) = Some c
         \<and> map_of (timers
               (run_session fl (AudioFrame f # mid @ [TimerFires tid now]) w)) c
             = Some (CountdownTick now, 1000)
         \<and> speech_ends (trace
               (run_session fl (AudioFrame f # mid @ [TimerFires tid now] @ evs) w))
             = Suc (speech_ends (trace w))"
proof -
  define w1 where "w1 = onaudioprocess fl f w"
  define w2 where "w2 = run_session fl mid w1"
  define tid where "tid = Suc (lastTimerId w)"
  define w3 where "w3 = fire tid now w2"
  have bw: "ids_bounded w"
    unfolding reach by (rule ids_bounded_run [OF ids_bounded_new])
  have tw: "timers_tracked w"
    unfolding reach by (rule timers_tracked_run [OF timers_tracked_new])
  note sp = onaudioprocess_speech [OF voice, folded w1_def]
  have p1: "short_timer_pending tid w1"
    unfolding w1_def tid_def by (rule pending_after_speech [OF bw tw voice])
  from window have "undisturbed fl mid w1" by (simp add: w1_def)
  from pending_window [OF p1 this]
  have p2: "short_timer_pending tid w2"
    and ends2: "speech_ends (trace w2) = speech_ends (trace w)"
    by (simp_all add: w2_def sp)
  have cfg2: "config w2 = config w"
    by (simp add: w2_def config_run sp)
  from p2 have bw2: "ids_bounded w2" and act2: "activeStreaming w2"
    and st2: "silenceTimeout w2 = Some tid" and idle2: "maxSilenceTimeout w2 = None"
    and t2: "timers w2 = [(tid, HandleSilence, silenceDuration (config w))]"
    by (simp_all add: short_timer_pending_def cfg2)
  have armed2: "map_of (timers w2) tid = Some (HandleSilence, silenceDuration (config w))"
    by (simp add: t2)
  have r2: "run_session fl (AudioFrame f # mid) w = w2"
    by (simp add: run_session_Cons w1_def w2_def)
  have r3: "run_session fl (AudioFrame f # mid @ [TimerFires tid now]) w = w3"
    by (simp add: run_session_Cons run_session_append w1_def w2_def w3_def run_session_def)
  have r4: "run_session fl (AudioFrame f # mid @ [TimerFires tid now] @ evs) w
              = run_session fl evs w3"
    by (simp add: run_session_Cons run_session_append w1_def w2_def w3_def run_session_def)
  note ex = short_timer_expiry [OF bw2 act2 idle2 armed2, of now, folded w3_def]
  have cfg3: "config w3 = config w"
    by (simp add: ex cfg2)
  from later have "list_all (\<lambda>ev. \<not> is_speech fl w3 ev) evs"
    by (simp add: list_all_iff is_speech_def cfg3 split: session_event.splits)
  from quiet_run [OF ex(2) this]
  have after: "speech_ends (trace (run_session fl evs w3)) = Suc (speech_ends (trace w))"
    by (simp add: ex ends2)
  show ?thesis
    apply (rule exI [where x = tid])
    apply (rule exI [where x = "Suc (lastTimerId w2)"])
    apply (rule exI [where x = "Suc (Suc (lastTimerId w2))"])
    apply (simp only: r2 r3 r4)
    apply (insert st2 t2 ends2 ex(1) ex(4) ex(5) ex(6) ex(7) ex(8) ex(9) after)
    apply (simp add: cfg2)
    done
qed

theorem silence_timer_fires_once_witness:
  "\<exists>tid m.
      silenceTimeout
          (run_session exact
             (AudioFrame [1] # [AudioFrame [0], StartCalled good_env, TimerFires 7 60700,
                                AudioFrame [0]])
             listening_session)
        = Some tid
    \<and> \<not> isActivelySpeaking
          (run_session exact
             (AudioFrame [1] # [AudioFrame [0], StartCalled good_env, TimerFires 7 60700,
                                AudioFrame [0]] @ [TimerFires tid 61500])
             listening_session)
    \<and> speech_ends (trace
          (run_session exact
             (AudioFrame [1] # [AudioFrame [0], StartCalled good_env, TimerFires 7 60700,
                                AudioFrame [0]] @ [TimerFires tid 61500])
             listening_session))
        = Suc (speech_ends (trace listening_session))
    \<and> maxSilenceTimeout
          (run_session exact
             (AudioFrame [1] # [AudioFrame [0], StartCalled good_env, TimerFires 7 60700,
                                AudioFrame [0]] @ [TimerFires tid 61500])
             listening_session) = Some m
    \<and> speech_ends (trace
          (run_session exact
             (AudioFrame [1] # [AudioFrame [0], StartCalled good_env, TimerFires 7 60700,
                                AudioFrame [0]] @ [TimerFires tid 61500]
                @ [AudioFrame [0], TimerFires 1 62000, StopCalled 130000])
             listening_session))
        = Suc (speech_ends (trace listening_session))"
proof -
  define w1 where "w1 = onaudioprocess exact [1] listening_session"
  have voice: "detectVoiceActivity exact (vadThreshold (config listening_session)) [1]"
    using loud_frame by (simp add: default_threshold)
  have p1: "short_timer_pending 1 w1"
    using pending_after_speech [OF listening_session_timers(1) listening_session_timers(2) voice]
    by (simp add: w1_def listening_session_timers)
  note sp = onaudioprocess_speech [OF voice, folded w1_def]
  have quiet: "\<not> detectVoiceActivity exact (vadThreshold (config v)) [0]"
    if "config v = config listening_session" for v
    using silent_frame by (simp add: that default_threshold)
  have l1: "leaves_short_timer exact w1 (AudioFrame [0])"
    by (simp add: leaves_short_timer_def quiet sp)
  note q1 = pending_step [OF p1 l1]
  define w2 where "w2 = session_step exact (AudioFrame [0]) w1"
  have on2: "isListening w2"
    using quiet [of w1]
    by (simp add: w2_def onaudioprocess_silent processAudioData_fields sp
                  listening_session_fields)
  then have s2: "start good_env w2 = (Inr True, w2)"
    by (simp add: start_def)
  have l2: "leaves_short_timer exact w2 (StartCalled good_env)"
    by (simp add: leaves_short_timer_def s2)
  note q2 = pending_step [OF q1(1) [folded w2_def] l2]
  have same3: "session_step exact (StartCalled good_env) w2 = w2"
    by (simp add: s2)
  have l3: "leaves_short_timer exact w2 (TimerFires 7 60700)"
    using q1(1) [folded w2_def] by (simp add: leaves_short_timer_def short_timer_pending_def)
  note q3 = pending_step [OF q1(1) [folded w2_def] l3]
  define w4 where "w4 = session_step exact (TimerFires 7 60700) w2"
  have cfg4: "config w4 = config listening_session"
    by (simp add: w4_def w2_def config_step sp del: session_step.simps)
  have l4: "leaves_short_timer exact w4 (AudioFrame [0])"
    by (simp add: leaves_short_timer_def quiet cfg4)
  have window: "undisturbed exact
                  [AudioFrame [0], StartCalled good_env, TimerFires 7 60700, AudioFrame [0]]
                  (onaudioprocess exact [1] listening_session)"
    using l1 l2 l3 l4
    by (simp add: w1_def [symmetric] w2_def [symmetric] same3 w4_def [symmetric]
             del: session_step.simps)
  have later: "\<forall>ev \<in> set [AudioFrame [0], TimerFires 1 62000, StopCalled 130000].
                 \<not> is_speech exact listening_session ev"
    using silent_frame by (simp add: is_speech_def default_threshold)
  from silence_timer_fires_once [OF listening_session_reached voice window later, of 61500]
  show ?thesis by blast
qed


lemma second_stop_adds_usage:
  assumes "startTime w = Some s" and "s \<noteq> 0" and "localStorage w \<noteq> None"
  shows "getMinutesUsed (localStorage (stop n2 (stop n1 w)))
           = getMinutesUsed (localStorage (stop n1 w)) + (n2 - s) / (1000 * 60)"
  using assms
  by (auto simp: stop_stop stop_form usage_after_def persist_usage_def storeMinutesUsed_def
                 getMinutesUsed_def)

text \<open>
  C1. \<open>stop()\<close> called twice in succession. The second call finds every handle and timer
  already cleared and the flags reset, changes none of them and emits exactly one more
  state update (lemma \<open>stop_stop\<close>). It does find the start time of the session, which
  \<open>stop()\<close> never clears, and adds the whole time since that start to the persisted
  usage minutes once more (lemma \<open>second_stop_adds_usage\<close>). Here a session is started
  at time 60000 over a store with 3 usage minutes: the first \<open>stop()\<close>, at time 120000,
  persists 4 minutes, and a second \<open>stop()\<close> at the same instant persists 5.
\<close>

theorem stop_twice_counts_usage_twice:
  "isListening listening_session
   \<and> startTime listening_session = Some 60000
   \<and> getMinutesUsed (localStorage listening_session) = 3
   \<and> getMinutesUsed (localStorage (stop 120000 listening_session)) = 4
   \<and> getMinutesUsed (localStorage (stop 120000 (stop 120000 listening_session))) = 5
   \<and> state_updates (trace (stop 120000 (stop 120000 listening_session)))
       = Suc (state_updates (trace (stop 120000 listening_session)))"
proof -
  have a: "getMinutesUsed (localStorage listening_session) = 3"
    by (simp add: listening_session_fields storage_A_def getMinutesUsed_def)
  have b: "getMinutesUsed (localStorage (stop 120000 listening_session)) = 4"
    by (simp add: stop_form usage_after_def persist_usage_def listening_session_fields
                  storage_A_def getMinutesUsed_def storeMinutesUsed_def)
  have c: "getMinutesUsed (localStorage (stop 120000 (stop 120000 listening_session))) = 5"
    using second_stop_adds_usage [of listening_session 60000 120000 120000] b
    by (simp add: listening_session_fields storage_A_def)
  have d: "state_updates (trace (stop 120000 (stop 120000 listening_session)))
       = Suc (state_updates (trace (stop 120000 listening_session)))"
    by (simp add: stop_stop state_updates_def)
  from a b c d show ?thesis
    by (simp add: listening_session_fields)
qed


end
